theory Spec2Isabelle
  imports Main "HOL-Library.Sublist"
begin
section \<open>Python strings\<close>

text \<open>
  A Python string is a sequence of Unicode characters. The source examines a character
  with \<^verbatim>\<open>str.isalpha\<close>, \<^verbatim>\<open>str.isdigit\<close>, \<^verbatim>\<open>str.isalnum\<close>, \<^verbatim>\<open>str.isspace\<close> and \<^verbatim>\<open>int\<close>,
  and compares it with other characters. With respect to these, the characters of
  Unicode fall into six classes, none of which overlaps another:

  \<^item> letters: \<^verbatim>\<open>isalpha\<close> and \<^verbatim>\<open>isalnum\<close> hold;
  \<^item> decimal digits, each with its value from 0 to 9: \<^verbatim>\<open>isdigit\<close> and \<^verbatim>\<open>isalnum\<close> hold,
    and \<^verbatim>\<open>int\<close> reads the digit;
  \<^item> other digits, such as the superscript two: \<^verbatim>\<open>isdigit\<close> and \<^verbatim>\<open>isalnum\<close> hold, and
    \<^verbatim>\<open>int\<close> raises \<^verbatim>\<open>ValueError\<close>;
  \<^item> other numeric characters, such as the fraction one half: only \<^verbatim>\<open>isalnum\<close> holds;
  \<^item> whitespace: only \<^verbatim>\<open>isspace\<close> holds;
  \<^item> all other characters: none of the four holds.
\<close>

datatype uclass = Letter | Decimal nat | Digit | Numeric | Space | Other

text \<open>
  The classes of the characters U+0000 to U+00FF, which are the values of \<^typ>\<open>char\<close>.
\<close>

definition latin1_class :: "char \<Rightarrow> uclass" where
  "latin1_class c =
     (let n = (of_char c :: nat)
      in if 48 \<le> n \<and> n \<le> 57 then Decimal (n - 48)
         else if (65 \<le> n \<and> n \<le> 90) \<or> (97 \<le> n \<and> n \<le> 122) \<or> n = 170 \<or> n = 181 \<or>
                 n = 186 \<or> (192 \<le> n \<and> n \<le> 214) \<or> (216 \<le> n \<and> n \<le> 246) \<or> 248 \<le> n
           then Letter
         else if n = 178 \<or> n = 179 \<or> n = 185 then Digit
         else if 188 \<le> n \<and> n \<le> 190 then Numeric
         else if (9 \<le> n \<and> n \<le> 13) \<or> (28 \<le> n \<and> n \<le> 32) \<or> n = 133 \<or> n = 160 then Space
         else Other)"

text \<open>
  A character is either one of U+0000 to U+00FF, or a character above them, given by
  its code point and the class that the Unicode database of the interpreter assigns
  to it. A string is a list of characters; \<open>py\<close> turns a literal into a string.
\<close>

datatype pychar = Ch char | Wide nat uclass

type_synonym pystr = "pychar list"

abbreviation py :: "string \<Rightarrow> pystr" where
  "py s \<equiv> map Ch s"

fun char_class :: "pychar \<Rightarrow> uclass" where
  "char_class (Ch c) = latin1_class c"
| "char_class (Wide n k) = k"

definition char_isalpha :: "pychar \<Rightarrow> bool" where
  "char_isalpha c = (char_class c = Letter)"

definition char_isdecimal :: "pychar \<Rightarrow> bool" where
  "char_isdecimal c = (case char_class c of Decimal v \<Rightarrow> True | _ \<Rightarrow> False)"

definition char_isdigit :: "pychar \<Rightarrow> bool" where
  "char_isdigit c = (case char_class c of Decimal v \<Rightarrow> True | Digit \<Rightarrow> True | _ \<Rightarrow> False)"

definition char_isalnum :: "pychar \<Rightarrow> bool" where
  "char_isalnum c =
     (case char_class c of
        Letter \<Rightarrow> True | Decimal v \<Rightarrow> True | Digit \<Rightarrow> True | Numeric \<Rightarrow> True | _ \<Rightarrow> False)"

definition char_isspace :: "pychar \<Rightarrow> bool" where
  "char_isspace c = (char_class c = Space)"

text \<open>
  As in Python, each string predicate is false on the empty string.
\<close>

definition isdigit :: "pystr \<Rightarrow> bool" where
  "isdigit s = (s \<noteq> [] \<and> list_all char_isdigit s)"

definition isalpha :: "pystr \<Rightarrow> bool" where
  "isalpha s = (s \<noteq> [] \<and> list_all char_isalpha s)"

definition isalnum :: "pystr \<Rightarrow> bool" where
  "isalnum s = (s \<noteq> [] \<and> list_all char_isalnum s)"

definition isspace :: "pystr \<Rightarrow> bool" where
  "isspace s = (s \<noteq> [] \<and> list_all char_isspace s)"

text \<open>
  The letters and digits of ASCII, in which the definition language writes its names
  and numbers.
\<close>

definition ascii_letter :: "pychar \<Rightarrow> bool" where
  "ascii_letter c =
     (case c of
        Ch a \<Rightarrow> (65 \<le> (of_char a :: nat) \<and> (of_char a :: nat) \<le> 90) \<or>
                (97 \<le> (of_char a :: nat) \<and> (of_char a :: nat) \<le> 122)
      | Wide n k \<Rightarrow> False)"

definition ascii_digit :: "pychar \<Rightarrow> bool" where
  "ascii_digit c =
     (case c of
        Ch a \<Rightarrow> 48 \<le> (of_char a :: nat) \<and> (of_char a :: nat) \<le> 57
      | Wide n k \<Rightarrow> False)"

definition is_ascii :: "pychar \<Rightarrow> bool" where
  "is_ascii c = (case c of Ch a \<Rightarrow> (of_char a :: nat) < 128 | Wide n k \<Rightarrow> False)"

section \<open>The name table (names.py)\<close>

text \<open>
  The exceptions raised by \<^verbatim>\<open>Names\<close>. The \<^verbatim>\<open>TypeError\<close> checks of the source
  (\<^verbatim>\<open>isinstance\<close>) reject arguments of the wrong Python type; the types of the model
  exclude those arguments.
\<close>

datatype pyerr = SyntaxError | ValueError

record Names =
  names :: "pystr list"
  error_code_count :: int

definition Names_init :: Names where
  "Names_init = \<lparr> names = [], error_code_count = 0 \<rparr>"

text \<open>
  \<^verbatim>\<open>range(lo, hi)\<close> as the list of its elements.
\<close>

definition py_range :: "int \<Rightarrow> int \<Rightarrow> int list" where
  "py_range lo hi = [lo..hi - 1]"

definition unique_error_codes :: "Names \<Rightarrow> int \<Rightarrow> int list \<times> Names" where
  "unique_error_codes s num_error_codes =
     (let s1 = s\<lparr> error_code_count := error_code_count s + num_error_codes \<rparr>
      in (py_range (error_code_count s1 - num_error_codes) (error_code_count s1), s1))"

text \<open>
  \<^verbatim>\<open>list.index\<close>: the position of the first occurrence. The source calls it only
  after a membership test has succeeded; on an absent element the model gives the
  length of the list.
\<close>

fun list_index :: "'a list \<Rightarrow> 'a \<Rightarrow> nat" where
  "list_index [] x = 0"
| "list_index (y # ys) x = (if y = x then 0 else Suc (list_index ys x))"

text \<open>
  \<^verbatim>\<open>query\<close> reads the table only; the model returns the table with the result, as
  every method of the class does here, so that the absence of an update is a
  statement about the model.
\<close>

definition query :: "Names \<Rightarrow> pystr \<Rightarrow> (pyerr + nat option) \<times> Names" where
  "query s name_string =
     (if \<not> isalnum name_string then (Inl SyntaxError, s)
      else if isdigit name_string then (Inl SyntaxError, s)
      else if name_string \<in> set (names s)
        then (Inr (Some (list_index (names s) name_string)), s)
        else (Inr None, s))"

fun lookup_loop :: "Names \<Rightarrow> pystr list \<Rightarrow> nat list \<Rightarrow> nat list \<times> Names" where
  "lookup_loop s [] name_ids = (name_ids, s)"
| "lookup_loop s (name # rest) name_ids =
     (let s1 = (if name \<notin> set (names s) then s\<lparr> names := names s @ [name] \<rparr> else s)
      in lookup_loop s1 rest (name_ids @ [list_index (names s1) name]))"

definition lookup :: "Names \<Rightarrow> pystr list \<Rightarrow> nat list \<times> Names" where
  "lookup s name_string_list = lookup_loop s name_string_list []"

definition get_name_string :: "Names \<Rightarrow> int \<Rightarrow> (pyerr + pystr option) \<times> Names" where
  "get_name_string s name_id =
     (if name_id < 0 then (Inl ValueError, s)
      else if nat name_id < length (names s) then (Inr (Some (names s ! nat name_id)), s)
      else (Inr None, s))"

text \<open>
  A session is a sequence of calls of the public methods on one table. A call that
  raises leaves the table as it was (every \<^verbatim>\<open>raise\<close> of the class precedes the
  first assignment of its method).
\<close>

datatype names_op =
    Lookup "pystr list"
  | Query pystr
  | GetNameString int
  | UniqueErrorCodes int

fun run_op :: "Names \<Rightarrow> names_op \<Rightarrow> Names" where
  "run_op s (Lookup xs) = snd (lookup s xs)"
| "run_op s (Query x) = snd (query s x)"
| "run_op s (GetNameString i) = snd (get_name_string s i)"
| "run_op s (UniqueErrorCodes n) = snd (unique_error_codes s n)"

definition run_ops :: "Names \<Rightarrow> names_op list \<Rightarrow> Names" where
  "run_ops s ops = foldl run_op s ops"

text \<open>
  An identifier of the definition language: a letter followed by letters and digits.
\<close>

definition is_identifier :: "pystr \<Rightarrow> bool" where
  "is_identifier s = (isalnum s \<and> char_isalpha (hd s))"

text \<open>
  The words of the specification of \<^verbatim>\<open>query\<close>, for the alphabet in which the
  specification writes its names (\<^verbatim>\<open>[A-Za-z][A-Za-z0-9]*\<close>): an alphanumeric string is a
  non-empty string of letters and digits of ASCII, a purely numeric one a non-empty
  string of digits of ASCII.
\<close>

definition spec_alphanumeric :: "pystr \<Rightarrow> bool" where
  "spec_alphanumeric s = (s \<noteq> [] \<and> list_all (\<lambda>c. ascii_letter c \<or> ascii_digit c) s)"

definition spec_numeric :: "pystr \<Rightarrow> bool" where
  "spec_numeric s = (s \<noteq> [] \<and> list_all ascii_digit s)"

text \<open>
  A session of the error-code allocator: the ranges handed out by successive calls.
\<close>

fun reserve_all :: "Names \<Rightarrow> int list \<Rightarrow> int list list \<times> Names" where
  "reserve_all s [] = ([], s)"
| "reserve_all s (n # ns) =
     (let (r, s1) = unique_error_codes s n; (rs, s2) = reserve_all s1 ns in (r # rs, s2))"

text \<open>
  The calls of a session whose \<^verbatim>\<open>lookup\<close> arguments are all identifiers, as the
  scanner's are.
\<close>

fun lookup_args_ok :: "names_op \<Rightarrow> bool" where
  "lookup_args_ok (Lookup xs) = list_all is_identifier xs"
| "lookup_args_ok _ = True"


section \<open>The scanner (scanner.py)\<close>

text \<open>
  The eleven symbol types, in the order of \<^verbatim>\<open>symbol_type_list\<close> (the source numbers
  them 0 to 10). A \<^verbatim>\<open>Symbol\<close> is created with type and id \<^verbatim>\<open>None\<close>.
\<close>

datatype symtype =
    COMMA | SEMICOLON | GREATER | BRACK_OPEN | BRACK_CLOSE
  | NUMBER | KEYWORD | NAME | DOT | COLON | EOF

record symbol =
  sym_type :: "symtype option"
  sym_id :: "nat option"
  sym_line_num :: nat
  sym_char_num :: nat

definition Symbol :: symbol where
  "Symbol = \<lparr> sym_type = None, sym_id = None, sym_line_num = 0, sym_char_num = 0 \<rparr>"

text \<open>
  The scanner's state. \<open>obj_file\<close> is the part of the file not yet read, as the
  characters that \<^verbatim>\<open>read(1)\<close> delivers; \<open>current_char\<close> is a string of length one, or
  the empty string at the end of the file. \<open>keyword_ids\<close> holds the eighteen IDs that
  the constructor stores in \<^verbatim>\<open>CLOCK_ID\<close> to \<^verbatim>\<open>RC_ID\<close>. Opening the file (with the two
  exits of \<^verbatim>\<open>_open_file\<close>) and decoding it are outside the model, which starts from the
  file's text: the characters that successive calls of \<^verbatim>\<open>read(1)\<close> deliver.
\<close>

record scanner =
  sc_names :: Names
  current_char :: pystr
  obj_file :: pystr
  hashes :: nat
  line_num :: nat
  char_num :: nat
  keyword_ids :: "nat list"

definition keywords_list :: "pystr list" where
  "keywords_list =
     map py
       [''CLOCK'', ''SWITCH'', ''AND'', ''NAND'', ''OR'', ''NOR'', ''DTYPE'', ''XOR'',
        ''MONITOR'', ''Q'', ''QBAR'', ''CLK'', ''DATA'', ''SET'', ''CLEAR'', ''DEVICES'',
        ''CONNECTIONS'', ''RC'']"

definition Scanner_init :: "Names \<Rightarrow> pystr \<Rightarrow> scanner" where
  "Scanner_init nms text =
     (let (ids, nms1) = lookup nms keywords_list
      in \<lparr> sc_names = nms1, current_char = py '' '', obj_file = text, hashes = 0,
           line_num = 0, char_num = 0, keyword_ids = ids \<rparr>)"

definition CLOCK_ID :: "scanner \<Rightarrow> nat" where "CLOCK_ID sc = keyword_ids sc ! 0"
definition SWITCH_ID :: "scanner \<Rightarrow> nat" where "SWITCH_ID sc = keyword_ids sc ! 1"
definition AND_ID :: "scanner \<Rightarrow> nat" where "AND_ID sc = keyword_ids sc ! 2"
definition NAND_ID :: "scanner \<Rightarrow> nat" where "NAND_ID sc = keyword_ids sc ! 3"
definition OR_ID :: "scanner \<Rightarrow> nat" where "OR_ID sc = keyword_ids sc ! 4"
definition NOR_ID :: "scanner \<Rightarrow> nat" where "NOR_ID sc = keyword_ids sc ! 5"
definition DTYPE_ID :: "scanner \<Rightarrow> nat" where "DTYPE_ID sc = keyword_ids sc ! 6"
definition XOR_ID :: "scanner \<Rightarrow> nat" where "XOR_ID sc = keyword_ids sc ! 7"
definition MONITOR_ID :: "scanner \<Rightarrow> nat" where "MONITOR_ID sc = keyword_ids sc ! 8"
definition Q_ID :: "scanner \<Rightarrow> nat" where "Q_ID sc = keyword_ids sc ! 9"
definition QBAR_ID :: "scanner \<Rightarrow> nat" where "QBAR_ID sc = keyword_ids sc ! 10"
definition CLK_ID :: "scanner \<Rightarrow> nat" where "CLK_ID sc = keyword_ids sc ! 11"
definition DATA_ID :: "scanner \<Rightarrow> nat" where "DATA_ID sc = keyword_ids sc ! 12"
definition SET_ID :: "scanner \<Rightarrow> nat" where "SET_ID sc = keyword_ids sc ! 13"
definition CLEAR_ID :: "scanner \<Rightarrow> nat" where "CLEAR_ID sc = keyword_ids sc ! 14"
definition DEVICES_ID :: "scanner \<Rightarrow> nat" where "DEVICES_ID sc = keyword_ids sc ! 15"
definition CONNECTIONS_ID :: "scanner \<Rightarrow> nat" where "CONNECTIONS_ID sc = keyword_ids sc ! 16"
definition RC_ID :: "scanner \<Rightarrow> nat" where "RC_ID sc = keyword_ids sc ! 17"

definition newline :: pystr where
  "newline = [Ch (CHR 0x0A)]"

text \<open>
  \<^verbatim>\<open>_hash_count\<close> looks at the character read before the one being read now.
\<close>

definition hash_count :: "scanner \<Rightarrow> scanner" where
  "hash_count sc =
     (if current_char sc = py ''#'' then sc\<lparr> hashes := hashes sc + 1 \<rparr>
      else sc\<lparr> hashes := 0 \<rparr>)"

text \<open>
  \<^verbatim>\<open>_next_char\<close>; \<^verbatim>\<open>read(1)\<close> gives the next character, or the empty string at the end
  of the file. The character returned is \<open>current_char\<close> of the result.
\<close>

definition next_char :: "scanner \<Rightarrow> scanner" where
  "next_char sc =
     (let char = take 1 (obj_file sc);
          sc1 = hash_count (sc\<lparr> obj_file := drop 1 (obj_file sc) \<rparr>);
          sc2 = sc1\<lparr> char_num := char_num sc1 + 1, current_char := char \<rparr>
      in if char = newline then sc2\<lparr> line_num := line_num sc2 + 1, char_num := 0 \<rparr>
         else sc2)"

text \<open>
  What is left to scan: the unread characters, and the current one unless the end of
  the file has been reached.
\<close>

definition remaining :: "scanner \<Rightarrow> nat" where
  "remaining sc = length (obj_file sc) + (if current_char sc = [] then 0 else 1)"

lemma obj_file_next_char: "obj_file (next_char sc) = drop 1 (obj_file sc)"
  by (simp add: next_char_def hash_count_def Let_def)

lemma current_char_next_char: "current_char (next_char sc) = take 1 (obj_file sc)"
  by (simp add: next_char_def hash_count_def Let_def)

lemma next_char_read:
  "current_char (next_char sc) \<noteq> [] \<Longrightarrow> length (obj_file (next_char sc)) < length (obj_file sc)"
  by (cases "obj_file sc") (simp_all add: obj_file_next_char current_char_next_char)

lemma remaining_next_char: "remaining (next_char sc) \<le> remaining sc"
  by (cases "obj_file sc") (simp_all add: remaining_def obj_file_next_char current_char_next_char)

lemma remaining_next_char_less:
  "current_char sc \<noteq> [] \<Longrightarrow> remaining (next_char sc) < remaining sc"
  by (cases "obj_file sc") (simp_all add: remaining_def obj_file_next_char current_char_next_char)

text \<open>
  The inner loop of \<^verbatim>\<open>_next_non_comment_char\<close>, \<^verbatim>\<open>while self.hashes < 3\<close>, which reads
  a block comment up to its closing hashes. The flag tells whether the loop left the
  method through \<^verbatim>\<open>return char\<close> at the end of the file.
\<close>

function next_non_comment_char_block :: "scanner \<Rightarrow> bool \<times> scanner" where
  "next_non_comment_char_block sc =
     (if hashes sc < 3 then
        (let sc1 = next_char sc
         in if current_char sc1 = [] then (True, sc1) else next_non_comment_char_block sc1)
      else (False, sc))"
  by pat_completeness auto
termination
  by (relation "measure (\<lambda>sc. length (obj_file sc))") (auto simp: next_char_read)

declare next_non_comment_char_block.simps [simp del]

lemma block_obj_file_le:
  "length (obj_file (snd (next_non_comment_char_block sc))) \<le> length (obj_file sc)"
proof (induction sc rule: next_non_comment_char_block.induct)
  case (1 sc)
  show ?case
  proof (cases "hashes sc < 3 \<and> current_char (next_char sc) \<noteq> []")
    case True
    then have "length (obj_file (snd (next_non_comment_char_block (next_char sc))))
        \<le> length (obj_file (next_char sc))"
      using "1.IH"[OF _ refl] by simp
    moreover have "length (obj_file (next_char sc)) \<le> length (obj_file sc)"
      by (simp add: obj_file_next_char)
    ultimately show ?thesis using True
      by (subst next_non_comment_char_block.simps) (simp add: Let_def)
  next
    case False
    then show ?thesis
      by (subst next_non_comment_char_block.simps) (auto simp: Let_def obj_file_next_char)
  qed
qed

lemma block_continues_shorter:
  assumes "hashes sc < 3" and "\<not> fst (next_non_comment_char_block sc)"
  shows "length (obj_file (snd (next_non_comment_char_block sc))) < length (obj_file sc)"
    and "current_char (snd (next_non_comment_char_block sc)) \<noteq> []"
proof -
  from assms have ne: "current_char (next_char sc) \<noteq> []"
    by (subst (asm) next_non_comment_char_block.simps) (auto simp: Let_def split: if_splits)
  with assms(1) have eq: "next_non_comment_char_block sc = next_non_comment_char_block (next_char sc)"
    by (subst next_non_comment_char_block.simps) (simp add: Let_def)
  have "length (obj_file (snd (next_non_comment_char_block (next_char sc))))
      \<le> length (obj_file (next_char sc))"
    by (rule block_obj_file_le)
  with next_char_read[OF ne] show "length (obj_file (snd (next_non_comment_char_block sc))) < length (obj_file sc)"
    by (simp add: eq)
  have "\<not> fst (next_non_comment_char_block s) \<Longrightarrow> current_char s \<noteq> [] \<Longrightarrow>
      current_char (snd (next_non_comment_char_block s)) \<noteq> []" for s
  proof (induction s rule: next_non_comment_char_block.induct)
    case (1 s)
    show ?case
    proof (cases "hashes s < 3")
      case True
      with "1.prems"(1) have c: "current_char (next_char s) \<noteq> []"
        by (subst (asm) next_non_comment_char_block.simps) (auto simp: Let_def split: if_splits)
      with True have e: "next_non_comment_char_block s = next_non_comment_char_block (next_char s)"
        by (subst next_non_comment_char_block.simps) (simp add: Let_def)
      from "1.IH"[OF True refl c] "1.prems"(1) c show ?thesis by (simp add: e)
    next
      case False
      then have "next_non_comment_char_block s = (False, s)"
        by (subst next_non_comment_char_block.simps) simp
      with "1.prems"(2) show ?thesis by simp
    qed
  qed
  from this[of "next_char sc"] assms(2) ne show "current_char (snd (next_non_comment_char_block sc)) \<noteq> []"
    by (simp add: eq)
qed

text \<open>
  The outer loop of \<^verbatim>\<open>_next_non_comment_char\<close>, \<^verbatim>\<open>while True\<close>. Every \<^verbatim>\<open>return\<close> of the
  method returns \<open>current_char\<close>, so the model returns the scanner alone; the callers'
  assignment of the result to \<open>current_char\<close> changes nothing.
\<close>

function next_non_comment_char_loop :: "scanner \<Rightarrow> scanner" where
  "next_non_comment_char_loop sc =
     (if hashes sc = 3 then
        (let r = next_non_comment_char_block (sc\<lparr> hashes := 0 \<rparr>)
         in if fst r then snd r
            else (let sc3 = (snd r)\<lparr> hashes := 0 \<rparr>
                  in if current_char sc3 = py ''#'' then next_non_comment_char_loop (next_char sc3)
                     else sc3))
      else if current_char sc = newline then
        (let sc1 = next_char sc
         in if current_char sc1 \<noteq> py ''#'' then sc1 else next_non_comment_char_loop sc1)
      else if current_char sc = [] then sc
      else next_non_comment_char_loop (next_char sc))"
  by pat_completeness auto
termination
proof (relation "measure remaining")
  show "wf (measure remaining)" by simp
next
  fix sc :: scanner and r sc3
  assume h: "hashes sc = 3" and r: "r = next_non_comment_char_block (sc\<lparr>hashes := 0\<rparr>)"
    and nf: "\<not> fst r" and sc3: "sc3 = (snd r)\<lparr>hashes := 0\<rparr>"
  have "length (obj_file (snd r)) < length (obj_file (sc\<lparr>hashes := 0\<rparr>))"
    unfolding r by (rule block_continues_shorter(1)) (use nf r in simp_all)
  moreover have "remaining (next_char sc3) \<le> remaining sc3" by (rule remaining_next_char)
  moreover have "current_char sc3 \<noteq> []"
    unfolding sc3 using block_continues_shorter(2)[of "sc\<lparr>hashes := 0\<rparr>"] nf r by simp
  then have "remaining (next_char sc3) < remaining sc3" by (rule remaining_next_char_less)
  ultimately show "(next_char sc3, sc) \<in> measure remaining"
    by (simp add: remaining_def sc3 split: if_splits)
next
  fix sc sc1 :: scanner
  assume "current_char sc = newline" and "sc1 = next_char sc"
  then show "(sc1, sc) \<in> measure remaining"
    by (simp add: remaining_next_char_less newline_def)
next
  fix sc :: scanner
  assume "current_char sc \<noteq> []"
  then show "(next_char sc, sc) \<in> measure remaining"
    by (simp add: remaining_next_char_less)
qed

declare next_non_comment_char_loop.simps [simp del]

definition next_non_comment_char :: "scanner \<Rightarrow> scanner" where
  "next_non_comment_char sc =
     (let sc1 = next_char sc
      in if current_char sc1 \<noteq> py ''#'' then sc1 else next_non_comment_char_loop sc1)"

lemma remaining_block:
  "remaining (snd (next_non_comment_char_block sc)) \<le> remaining sc"
proof (induction sc rule: next_non_comment_char_block.induct)
  case (1 sc)
  show ?case
  proof (cases "hashes sc < 3")
    case True
    note h = True
    show ?thesis
    proof (cases "current_char (next_char sc) = []")
      case True
      with h have "next_non_comment_char_block sc = (True, next_char sc)"
        by (subst next_non_comment_char_block.simps) (simp add: Let_def)
      then show ?thesis by (simp add: remaining_next_char)
    next
      case False
      with h have "next_non_comment_char_block sc = next_non_comment_char_block (next_char sc)"
        by (subst next_non_comment_char_block.simps) (simp add: Let_def)
      with "1.IH"[OF h refl False] remaining_next_char[of sc] show ?thesis by simp
    qed
  next
    case False
    then have "next_non_comment_char_block sc = (False, sc)"
      by (subst next_non_comment_char_block.simps) simp
    then show ?thesis by simp
  qed
qed

lemma remaining_hashes [simp]: "remaining (sc\<lparr> hashes := n \<rparr>) = remaining sc"
  by (simp add: remaining_def)

lemma remaining_loop: "remaining (next_non_comment_char_loop sc) \<le> remaining sc"
proof (induction sc rule: next_non_comment_char_loop.induct)
  case (1 sc)
  let ?r = "next_non_comment_char_block (sc\<lparr> hashes := 0 \<rparr>)"
  let ?sc3 = "(snd ?r)\<lparr> hashes := 0 \<rparr>"
  have blk: "remaining ?sc3 \<le> remaining sc"
    using remaining_block[of "sc\<lparr> hashes := 0 \<rparr>"] by simp
  consider (a) "hashes sc = 3" "fst ?r"
    | (b) "hashes sc = 3" "\<not> fst ?r" "current_char ?sc3 = py ''#''"
    | (c) "hashes sc = 3" "\<not> fst ?r" "current_char ?sc3 \<noteq> py ''#''"
    | (d) "hashes sc \<noteq> 3" "current_char sc = newline" "current_char (next_char sc) \<noteq> py ''#''"
    | (e) "hashes sc \<noteq> 3" "current_char sc = newline" "current_char (next_char sc) = py ''#''"
    | (f) "hashes sc \<noteq> 3" "current_char sc \<noteq> newline" "current_char sc = []"
    | (g) "hashes sc \<noteq> 3" "current_char sc \<noteq> newline" "current_char sc \<noteq> []"
    by blast
  then show ?case
  proof cases
    case a
    then have "next_non_comment_char_loop sc = snd ?r"
      by (subst next_non_comment_char_loop.simps) (simp add: Let_def)
    then show ?thesis using remaining_block[of "sc\<lparr> hashes := 0 \<rparr>"] by simp
  next
    case b
    then have "next_non_comment_char_loop sc = next_non_comment_char_loop (next_char ?sc3)"
      by (subst next_non_comment_char_loop.simps) (simp add: Let_def)
    moreover have "remaining (next_non_comment_char_loop (next_char ?sc3)) \<le> remaining (next_char ?sc3)"
      using "1.IH"(1)[OF b(1) refl b(2) refl b(3)] .
    moreover have "remaining (next_char ?sc3) \<le> remaining ?sc3" by (rule remaining_next_char)
    ultimately show ?thesis using blk by simp
  next
    case c
    then have "next_non_comment_char_loop sc = ?sc3"
      by (subst next_non_comment_char_loop.simps) (simp add: Let_def)
    then show ?thesis using blk by simp
  next
    case d
    then have "next_non_comment_char_loop sc = next_char sc"
      by (subst next_non_comment_char_loop.simps) (simp add: Let_def)
    then show ?thesis by (simp add: remaining_next_char)
  next
    case e
    then have "next_non_comment_char_loop sc = next_non_comment_char_loop (next_char sc)"
      by (subst next_non_comment_char_loop.simps) (simp add: Let_def)
    moreover have "remaining (next_non_comment_char_loop (next_char sc)) \<le> remaining (next_char sc)"
      using "1.IH"(2)[OF e(1) e(2) refl] e(3) by simp
    ultimately show ?thesis using remaining_next_char[of sc] by simp
  next
    case f
    then have "next_non_comment_char_loop sc = sc"
      by (subst next_non_comment_char_loop.simps) simp
    then show ?thesis by simp
  next
    case g
    then have "next_non_comment_char_loop sc = next_non_comment_char_loop (next_char sc)"
      by (subst next_non_comment_char_loop.simps) simp
    moreover have "remaining (next_non_comment_char_loop (next_char sc)) \<le> remaining (next_char sc)"
      using "1.IH"(3)[OF g] .
    ultimately show ?thesis using remaining_next_char[of sc] by simp
  qed
qed

lemma remaining_next_non_comment_char:
  "remaining (next_non_comment_char sc) \<le> remaining (next_char sc)"
  by (simp add: next_non_comment_char_def Let_def remaining_loop)

lemma remaining_next_non_comment_char_less:
  "current_char sc \<noteq> [] \<Longrightarrow> remaining (next_non_comment_char sc) < remaining sc"
  using remaining_next_non_comment_char[of sc] remaining_next_char_less[of sc] by simp

text \<open>
  \<^verbatim>\<open>_next_valid_char\<close>. \<^verbatim>\<open>sys.exit()\<close> ends the session; the model keeps the scanner at
  that moment, whose \<open>current_char\<close>, \<open>line_num\<close> and \<open>char_num\<close> are what the message
  printed before the exit reports.
\<close>

datatype 'a scan = SysExit scanner | Raise pyerr scanner | Return 'a

definition valid_punc :: "pystr list" where
  "valid_punc = map py ['','', '';'', ''>'', ''('', '')'', ''.'', '':'', []]"

function next_valid_char :: "scanner \<Rightarrow> scanner scan" where
  "next_valid_char sc =
     (if isspace (current_char sc) \<or> current_char sc = py ''#'' then
        (let sc1 = next_non_comment_char sc
         in if \<not> isalnum (current_char sc1) \<and> \<not> isspace (current_char sc1) \<and>
               current_char sc1 \<notin> set valid_punc
            then SysExit sc1
            else next_valid_char sc1)
      else Return sc)"
  by pat_completeness auto
termination
  by (relation "measure remaining")
    (auto simp: isspace_def intro!: remaining_next_non_comment_char_less)

declare next_valid_char.simps [simp del]

text \<open>
  The loops of \<^verbatim>\<open>_get_name\<close> and \<^verbatim>\<open>_get_number\<close>.
\<close>

function get_name_loop :: "scanner \<Rightarrow> pystr \<Rightarrow> pystr \<times> scanner" where
  "get_name_loop sc output =
     (if isalnum (current_char sc)
      then get_name_loop (next_char sc) (output @ current_char sc)
      else (output, sc))"
  by pat_completeness auto
termination
  by (relation "measure (\<lambda>(sc, output). remaining sc)")
    (auto simp: isalnum_def intro!: remaining_next_char_less)

declare get_name_loop.simps [simp del]

definition get_name :: "scanner \<Rightarrow> pystr \<times> scanner" where
  "get_name sc = get_name_loop sc []"

function get_number_loop :: "scanner \<Rightarrow> pystr \<Rightarrow> pystr \<times> scanner" where
  "get_number_loop sc output =
     (if isdigit (current_char sc)
      then get_number_loop (next_char sc) (output @ current_char sc)
      else (output, sc))"
  by pat_completeness auto
termination
  by (relation "measure (\<lambda>(sc, output). remaining sc)")
    (auto simp: isdigit_def intro!: remaining_next_char_less)

declare get_number_loop.simps [simp del]

text \<open>
  \<^verbatim>\<open>int(output)\<close>, for a string of characters that \<^verbatim>\<open>isdigit\<close> accepts, as the loop of
  \<^verbatim>\<open>_get_number\<close> collects them. \<^verbatim>\<open>int\<close> raises \<^verbatim>\<open>ValueError\<close> on the empty string, on
  a digit that is not a decimal digit, and on more digits than
  \<^verbatim>\<open>sys.int_max_str_digits\<close>, which is 4300 unless the interpreter is told otherwise
  (Python 3.11 and later).
\<close>

definition int_max_str_digits :: nat where
  "int_max_str_digits = 4300"

definition digit_value :: "pychar \<Rightarrow> nat" where
  "digit_value c = (case char_class c of Decimal v \<Rightarrow> v | _ \<Rightarrow> 0)"

definition py_int :: "pystr \<Rightarrow> pyerr + nat" where
  "py_int output =
     (if output = [] \<or> \<not> list_all char_isdecimal output \<or> int_max_str_digits < length output
      then Inl ValueError
      else Inr (foldl (\<lambda>n c. 10 * n + digit_value c) 0 output))"

text \<open>
  \<^verbatim>\<open>_get_number\<close>. No caller catches the \<^verbatim>\<open>ValueError\<close> of \<^verbatim>\<open>int\<close>; the model keeps the
  scanner as the loop left it.
\<close>

definition get_number :: "scanner \<Rightarrow> (nat \<times> scanner) scan" where
  "get_number sc =
     (let (output, sc1) = get_number_loop sc []
      in case py_int output of
           Inl e \<Rightarrow> Raise e sc1
         | Inr n \<Rightarrow> Return (n, sc1))"

definition char_dict :: "(pystr \<times> symtype) list" where
  "char_dict =
     [(py '','', COMMA), (py '';'', SEMICOLON), (py ''>'', GREATER), (py ''('', BRACK_OPEN),
      (py '')'', BRACK_CLOSE), (py ''.'', DOT), (py '':'', COLON)]"

text \<open>
  \<^verbatim>\<open>get_symbol\<close>. The last branch is the end of the \<^verbatim>\<open>if\<close> chain with no \<^verbatim>\<open>else\<close>: the
  symbol is returned as it was created. \<^verbatim>\<open>lookup\<close> returns one ID for the one name it
  is given, which the source unpacks into \<^verbatim>\<open>symbol.id\<close>.
\<close>

definition get_symbol :: "scanner \<Rightarrow> (symbol \<times> scanner) scan" where
  "get_symbol sc =
     (case next_valid_char sc of
        SysExit sc1 \<Rightarrow> SysExit sc1
      | Raise e sc1 \<Rightarrow> Raise e sc1
      | Return sc1 \<Rightarrow>
          (let symbol = Symbol\<lparr> sym_line_num := line_num sc1, sym_char_num := char_num sc1 \<rparr>
           in case map_of char_dict (current_char sc1) of
                Some t \<Rightarrow> Return (symbol\<lparr> sym_type := Some t \<rparr>, next_non_comment_char sc1)
              | None \<Rightarrow>
                  if current_char sc1 = [] then Return (symbol\<lparr> sym_type := Some EOF \<rparr>, sc1)
                  else if isalpha (current_char sc1) then
                    (let (name_string, sc2) = get_name sc1;
                         t = (if name_string \<in> set keywords_list then KEYWORD else NAME);
                         (ids, nms) = lookup (sc_names sc2) [name_string]
                     in Return (symbol\<lparr> sym_type := Some t, sym_id := Some (ids ! 0) \<rparr>,
                                sc2\<lparr> sc_names := nms \<rparr>))
                  else if isdigit (current_char sc1) then
                    (case get_number sc1 of
                       SysExit sc2 \<Rightarrow> SysExit sc2
                     | Raise e sc2 \<Rightarrow> Raise e sc2
                     | Return (n, sc2) \<Rightarrow>
                         Return (symbol\<lparr> sym_id := Some n, sym_type := Some NUMBER \<rparr>, sc2))
                  else Return (symbol, sc1)))"

section \<open>The parser (parse.py)\<close>

subsection \<open>The collaborators\<close>

text \<open>
  The parser calls the \<^verbatim>\<open>Devices\<close>, \<^verbatim>\<open>Network\<close> and \<^verbatim>\<open>Monitors\<close> objects, whose
  modules are not among the files of the repository given here. Their methods and
  constants are parameters of the model: any total functions and any values. The
  objects share the name table with the scanner, so each method that may change
  something maps the name table and the collaborators' own state \<open>'e\<close> to new ones;
  \<^verbatim>\<open>get_device\<close> and \<^verbatim>\<open>check_network\<close> only read them.
\<close>

record 'e collab =
  devices_make_device ::
    "Names \<times> 'e \<Rightarrow> nat \<Rightarrow> int \<Rightarrow> int option \<Rightarrow> int \<times> Names \<times> 'e"
  devices_get_device :: "Names \<times> 'e \<Rightarrow> nat \<Rightarrow> bool"
  devices_NO_ERROR :: int
  devices_AND :: int
  devices_OR :: int
  devices_NAND :: int
  devices_NOR :: int
  devices_XOR :: int
  devices_CLOCK :: int
  devices_SWITCH :: int
  devices_D_TYPE :: int
  devices_RC :: int
  devices_HIGH :: int
  devices_LOW :: int
  devices_Q_ID :: nat
  devices_QBAR_ID :: nat
  devices_CLK_ID :: nat
  devices_DATA_ID :: nat
  devices_SET_ID :: nat
  devices_CLEAR_ID :: nat
  network_make_connection ::
    "Names \<times> 'e \<Rightarrow> nat \<Rightarrow> nat option \<Rightarrow> nat \<Rightarrow> nat option \<Rightarrow> int \<times> Names \<times> 'e"
  network_check_network :: "Names \<times> 'e \<Rightarrow> bool"
  network_NO_ERROR :: int
  network_DEVICE_ABSENT :: int
  monitors_make_monitor :: "Names \<times> 'e \<Rightarrow> nat \<Rightarrow> nat option \<Rightarrow> int \<times> Names \<times> 'e"
  monitors_NO_ERROR :: int

subsection \<open>The parser's state\<close>

text \<open>
  \<open>trace\<close> is not a field of the source: it records, in order, every error handed to
  \<^verbatim>\<open>_handle_error\<close> and every call of \<^verbatim>\<open>make_device\<close>, \<^verbatim>\<open>make_connection\<close>,
  \<^verbatim>\<open>make_monitor\<close> and \<^verbatim>\<open>check_network\<close>, so that what a parse did can be stated.
  Nothing in the model reads it.
\<close>

datatype event =
    Error int
  | MakeDevice nat int "int option"
  | MakeConnection nat "nat option" nat "nat option"
  | MakeMonitor nat "nat option"
  | CheckNetwork bool

record 'e parser =
  scanner :: scanner
  env :: 'e
  symbol :: "symbol option"
  error_codes :: "int list"
  error_count :: nat
  suppressed_errors :: "int list"
  trace :: "event list"

definition Parser_init :: "scanner \<Rightarrow> 'e \<Rightarrow> 'e parser" where
  "Parser_init sc e =
     (let (cs, nms) = unique_error_codes (sc_names sc) 8
      in \<lparr> scanner = sc\<lparr> sc_names := nms \<rparr>, env = e, symbol = None, error_codes = cs,
           error_count = 0, suppressed_errors = [], trace = [] \<rparr>)"

definition EXPECTED_SYMBOL :: "'e parser \<Rightarrow> int" where
  "EXPECTED_SYMBOL p = error_codes p ! 0"
definition EXPECTED_KEYWORD :: "'e parser \<Rightarrow> int" where
  "EXPECTED_KEYWORD p = error_codes p ! 1"
definition EXPECTED_DEVICE_INSTANTIATION :: "'e parser \<Rightarrow> int" where
  "EXPECTED_DEVICE_INSTANTIATION p = error_codes p ! 2"
definition UNEXPECTED_EOF :: "'e parser \<Rightarrow> int" where
  "UNEXPECTED_EOF p = error_codes p ! 3"
definition EXPECTED_EOF :: "'e parser \<Rightarrow> int" where
  "EXPECTED_EOF p = error_codes p ! 4"
definition EXPECTED_CONNECTION :: "'e parser \<Rightarrow> int" where
  "EXPECTED_CONNECTION p = error_codes p ! 5"
definition EXPECTED_NAME_PORT_INPUT :: "'e parser \<Rightarrow> int" where
  "EXPECTED_NAME_PORT_INPUT p = error_codes p ! 6"
definition NETWORK_INPUTS_UNCONNECTED :: "'e parser \<Rightarrow> int" where
  "NETWORK_INPUTS_UNCONNECTED p = error_codes p ! 7"

definition device_type_keywords_list :: "scanner \<Rightarrow> nat list" where
  "device_type_keywords_list sc =
     [CLOCK_ID sc, SWITCH_ID sc, AND_ID sc, NAND_ID sc, OR_ID sc, NOR_ID sc, DTYPE_ID sc,
      XOR_ID sc, RC_ID sc]"

definition output_identifier_keywords_list :: "scanner \<Rightarrow> nat list" where
  "output_identifier_keywords_list sc = [Q_ID sc, QBAR_ID sc]"

definition input_identifier_keywords_list :: "scanner \<Rightarrow> nat list" where
  "input_identifier_keywords_list sc = [CLK_ID sc, DATA_ID sc, SET_ID sc, CLEAR_ID sc]"

text \<open>
  \<^verbatim>\<open>self.symbol.type\<close> and \<^verbatim>\<open>self.symbol.id\<close>. \<^verbatim>\<open>parse_network\<close> fetches the first
  symbol before anything reads it; the model reads the type and the id of an unset
  symbol as \<^verbatim>\<open>None\<close>.
\<close>

definition cur_type :: "'e parser \<Rightarrow> symtype option" where
  "cur_type p = (case symbol p of None \<Rightarrow> None | Some y \<Rightarrow> sym_type y)"

definition cur_id :: "'e parser \<Rightarrow> nat option" where
  "cur_id p = (case symbol p of None \<Rightarrow> None | Some y \<Rightarrow> sym_id y)"

definition world :: "'e parser \<Rightarrow> Names \<times> 'e" where
  "world p = (sc_names (scanner p), env p)"

definition set_world :: "Names \<times> 'e \<Rightarrow> 'e parser \<Rightarrow> 'e parser" where
  "set_world w p = p\<lparr> scanner := (scanner p)\<lparr> sc_names := fst w \<rparr>, env := snd w \<rparr>"

subsection \<open>How a method ends\<close>

text \<open>
  A method returns a value (\<open>Done\<close>), or the run stops inside it: a loop has used up
  the number of iterations the model grants it (\<open>OutOfFuel\<close>; the source has no such
  bound, a run that stops this way for every bound is one that never ends), the scanner
  has called \<^verbatim>\<open>sys.exit()\<close> (\<open>Exited\<close>), or an \<^verbatim>\<open>assert\<close>, a dictionary access or the
  scanner's \<^verbatim>\<open>int\<close> has raised (\<open>Raised\<close>). In each case the state at that moment is kept.
\<close>

datatype stop = OutOfFuel | Exited | Raised

datatype ('a, 's) outcome = Done 'a 's | Stop stop 's

definition then_do ::
  "('s \<Rightarrow> ('a, 's) outcome) \<Rightarrow> ('a \<Rightarrow> 's \<Rightarrow> ('b, 's) outcome) \<Rightarrow> 's \<Rightarrow> ('b, 's) outcome" where
  "then_do m f s = (case m s of Done a s1 \<Rightarrow> f a s1 | Stop r s1 \<Rightarrow> Stop r s1)"

fun final :: "('a, 's) outcome \<Rightarrow> 's" where
  "final (Done a s) = s"
| "final (Stop r s) = s"

subsection \<open>Errors and symbols\<close>

text \<open>
  The part of \<^verbatim>\<open>_handle_error\<close> before the skip: the count, and the list of suppressed
  errors, to which the display of the first \<^verbatim>\<open>EXPECTED_DEVICE_INSTANTIATION\<close> error adds
  that code. The printed text is not modelled.
\<close>

definition register_error :: "int \<Rightarrow> 'e parser \<Rightarrow> 'e parser" where
  "register_error err p =
     (let p1 = p\<lparr> error_count := error_count p + 1, trace := trace p @ [Error err] \<rparr>
      in if err \<notin> set (suppressed_errors p1) \<and> err = EXPECTED_DEVICE_INSTANTIATION p1
         then p1\<lparr> suppressed_errors := suppressed_errors p1 @ [err] \<rparr>
         else p1)"

text \<open>
  \<^verbatim>\<open>_get_next_symbol\<close>. At the end of the file it calls \<^verbatim>\<open>_handle_error\<close> with no
  stopping symbol, which is \<open>register_error\<close>.
\<close>

definition get_next_symbol :: "'e parser \<Rightarrow> (unit, 'e parser) outcome" where
  "get_next_symbol p =
     (if symbol p \<noteq> None \<and> cur_type p = Some EOF
      then Done () (register_error (UNEXPECTED_EOF p) p)
      else (case get_symbol (scanner p) of
              SysExit sc \<Rightarrow> Stop Exited (p\<lparr> scanner := sc \<rparr>)
            | Raise e sc \<Rightarrow> Stop Raised (p\<lparr> scanner := sc \<rparr>)
            | Return (y, sc) \<Rightarrow> Done () (p\<lparr> scanner := sc, symbol := Some y \<rparr>)))"

text \<open>
  \<^verbatim>\<open>_skip_to_symbol\<close>, for a stopping symbol that is one symbol type, which is what
  every call in the parser passes. The first argument bounds the iterations of the
  loop.
\<close>

fun skip_to_symbol :: "nat \<Rightarrow> symtype \<Rightarrow> 'e parser \<Rightarrow> (unit, 'e parser) outcome" where
  "skip_to_symbol n stopping_symbol p =
     (if cur_type p \<noteq> Some stopping_symbol \<and> cur_type p \<noteq> Some EOF then
        (case n of
           0 \<Rightarrow> Stop OutOfFuel p
         | Suc k \<Rightarrow>
             (case get_next_symbol p of
                Done u p1 \<Rightarrow> skip_to_symbol k stopping_symbol p1
              | Stop r p1 \<Rightarrow> Stop r p1))
      else Done () p)"

declare skip_to_symbol.simps [simp del]

definition handle_error ::
  "nat \<Rightarrow> int \<Rightarrow> symtype option \<Rightarrow> 'e parser \<Rightarrow> (unit, 'e parser) outcome" where
  "handle_error n err stopping_symbol p =
     (let p1 = register_error err p
      in case stopping_symbol of
           None \<Rightarrow> Done () p1
         | Some st \<Rightarrow> skip_to_symbol n st p1)"

text \<open>
  \<^verbatim>\<open>_symbol_is_keyword\<close>; a single keyword ID is passed as a list of one.
\<close>

definition symbol_is_keyword :: "'e parser \<Rightarrow> nat list \<Rightarrow> bool" where
  "symbol_is_keyword p ids =
     (cur_type p = Some KEYWORD \<and> (case cur_id p of None \<Rightarrow> False | Some i \<Rightarrow> i \<in> set ids))"

definition expect_keyword ::
  "nat \<Rightarrow> nat list \<Rightarrow> symtype option \<Rightarrow> 'e parser \<Rightarrow> (bool, 'e parser) outcome" where
  "expect_keyword n ids stopping_symbol p =
     (if symbol_is_keyword p ids
      then then_do get_next_symbol (\<lambda>u. Done True) p
      else then_do (handle_error n (EXPECTED_KEYWORD p) stopping_symbol) (\<lambda>u. Done False) p)"

definition expect_symbol ::
  "nat \<Rightarrow> symtype \<Rightarrow> symtype option \<Rightarrow> 'e parser \<Rightarrow> (bool, 'e parser) outcome" where
  "expect_symbol n t stopping_symbol p =
     (if cur_type p = Some t
      then then_do get_next_symbol (\<lambda>u. Done True) p
      else then_do (handle_error n (EXPECTED_SYMBOL p) stopping_symbol) (\<lambda>u. Done False) p)"

subsection \<open>The semantic actions\<close>

text \<open>
  Each returns \<^verbatim>\<open>True\<close>, \<^verbatim>\<open>False\<close> or \<^verbatim>\<open>None\<close>, as the source does.
\<close>

definition monitor_output ::
  "nat \<Rightarrow> 'e collab \<Rightarrow> nat \<Rightarrow> nat option \<Rightarrow> 'e parser \<Rightarrow> (bool option, 'e parser) outcome" where
  "monitor_output n cb output_id output_port p =
     (if error_count p > 0 then Done (Some False) p
      else (let (err, w) = monitors_make_monitor cb (world p) output_id output_port;
                p1 = (set_world w p)\<lparr> trace := trace p @ [MakeMonitor output_id output_port] \<rparr>
            in if err = monitors_NO_ERROR cb then Done (Some True) p1
               else then_do (handle_error n err None) (\<lambda>u. Done None) p1))"

definition make_connection ::
  "nat \<Rightarrow> 'e collab \<Rightarrow> nat \<times> nat option \<Rightarrow> nat \<times> nat option \<Rightarrow> 'e parser \<Rightarrow>
   (bool option, 'e parser) outcome" where
  "make_connection n cb output_properties input_properties p =
     (if error_count p > 0 then Done (Some False) p
      else (let (out_id, out_port) = output_properties;
                (in_id, in_port) = input_properties;
                (err, w) = network_make_connection cb (world p) out_id out_port in_id in_port;
                p1 = (set_world w p)\<lparr> trace := trace p @
                       [MakeConnection out_id out_port in_id in_port] \<rparr>
            in if err = network_NO_ERROR cb then Done (Some True) p1
               else then_do (handle_error n err None) (\<lambda>u. Done (Some False)) p1))"

definition device_types :: "'e collab \<Rightarrow> scanner \<Rightarrow> nat \<rightharpoonup> int" where
  "device_types cb sc =
     [AND_ID sc \<mapsto> devices_AND cb, OR_ID sc \<mapsto> devices_OR cb, NAND_ID sc \<mapsto> devices_NAND cb,
      NOR_ID sc \<mapsto> devices_NOR cb, XOR_ID sc \<mapsto> devices_XOR cb,
      CLOCK_ID sc \<mapsto> devices_CLOCK cb, SWITCH_ID sc \<mapsto> devices_SWITCH cb,
      DTYPE_ID sc \<mapsto> devices_D_TYPE cb, RC_ID sc \<mapsto> devices_RC cb]"

text \<open>
  \<^verbatim>\<open>_initialise_device\<close>. The qualifier is \<^verbatim>\<open>None\<close> or a number, which
  \<^verbatim>\<open>int(qualifier)\<close> leaves as it is.
\<close>

definition initialise_device ::
  "nat \<Rightarrow> 'e collab \<Rightarrow> nat option \<Rightarrow> nat \<Rightarrow> nat option \<Rightarrow> 'e parser \<Rightarrow>
   (bool option, 'e parser) outcome" where
  "initialise_device n cb device_type_symbol device_id qualifier p =
     (if error_count p > 0 then Done (Some False) p
      else (case (case device_type_symbol of None \<Rightarrow> None
                  | Some k \<Rightarrow> device_types cb (scanner p) k) of
              None \<Rightarrow> Stop Raised p
            | Some device_type \<Rightarrow>
                (let q = map_option int qualifier;
                     q1 = (if device_type = devices_SWITCH cb then
                             (if q = Some 1 then Some (devices_HIGH cb)
                              else if q = Some 0 then Some (devices_LOW cb)
                              else q)
                           else q);
                     (err, w) = devices_make_device cb (world p) device_id device_type q1;
                     p1 = (set_world w p)\<lparr> trace := trace p @
                            [MakeDevice device_id device_type q1] \<rparr>
                 in if err = devices_NO_ERROR cb then Done (Some True) p1
                    else then_do (handle_error n err None) (\<lambda>u. Done None) p1)))"

subsection \<open>The grammar rules\<close>

definition rule_device_identifier :: "nat \<Rightarrow> 'e parser \<Rightarrow> (nat option, 'e parser) outcome" where
  "rule_device_identifier n p =
     (let device_id = cur_id p
      in then_do (expect_symbol n NAME None)
           (\<lambda>ok. Done (if ok then device_id else None)) p)"

definition rule_output_identifier ::
  "nat \<Rightarrow> 'e collab \<Rightarrow> 'e parser \<Rightarrow> ((nat \<times> nat option) option, 'e parser) outcome" where
  "rule_output_identifier n cb =
     then_do (rule_device_identifier n)
       (\<lambda>device_id p1.
          case device_id of
            None \<Rightarrow> then_do (handle_error n (network_DEVICE_ABSENT cb) None) (\<lambda>u. Done None) p1
          | Some d \<Rightarrow>
              if \<not> devices_get_device cb (world p1) d \<and> error_count p1 = 0
              then then_do (handle_error n (network_DEVICE_ABSENT cb) None) (\<lambda>u. Done None) p1
              else if cur_type p1 = Some DOT then
                then_do get_next_symbol
                  (\<lambda>u p2.
                     let port_id = cur_id p2
                     in then_do (expect_keyword n (output_identifier_keywords_list (scanner p2)) None)
                          (\<lambda>ok p3.
                             if ok then
                               Done (Some (d, Some (if port_id = Some (Q_ID (scanner p3))
                                                    then devices_Q_ID cb else devices_QBAR_ID cb))) p3
                             else Done None p3) p2) p1
              else Done (Some (d, None)) p1)"

definition id_translation :: "'e collab \<Rightarrow> scanner \<Rightarrow> nat \<rightharpoonup> nat" where
  "id_translation cb sc =
     [CLK_ID sc \<mapsto> devices_CLK_ID cb, DATA_ID sc \<mapsto> devices_DATA_ID cb,
      SET_ID sc \<mapsto> devices_SET_ID cb, CLEAR_ID sc \<mapsto> devices_CLEAR_ID cb]"

definition rule_input_identifier ::
  "nat \<Rightarrow> 'e collab \<Rightarrow> 'e parser \<Rightarrow> ((nat \<times> nat option) option, 'e parser) outcome" where
  "rule_input_identifier n cb =
     then_do (rule_device_identifier n)
       (\<lambda>device_id p1.
          case device_id of
            None \<Rightarrow> then_do (handle_error n (network_DEVICE_ABSENT cb) None) (\<lambda>u. Done None) p1
          | Some d \<Rightarrow>
              if \<not> devices_get_device cb (world p1) d \<and> error_count p1 = 0
              then then_do (handle_error n (network_DEVICE_ABSENT cb) None) (\<lambda>u. Done None) p1
              else
                then_do (expect_symbol n DOT (Some SEMICOLON))
                  (\<lambda>ok p2.
                     if ok then
                       (if cur_type p2 = Some NAME then
                          (let port_id = cur_id p2
                           in then_do get_next_symbol (\<lambda>u. Done (Some (d, port_id))) p2)
                        else if symbol_is_keyword p2 (input_identifier_keywords_list (scanner p2)) then
                          (case (case cur_id p2 of None \<Rightarrow> None
                                 | Some k \<Rightarrow> id_translation cb (scanner p2) k) of
                             None \<Rightarrow> Stop Raised p2
                           | Some port_id \<Rightarrow>
                               then_do get_next_symbol (\<lambda>u. Done (Some (d, Some port_id))) p2)
                        else then_do (handle_error n (EXPECTED_NAME_PORT_INPUT p2) None)
                               (\<lambda>u. Done None) p2)
                     else Done None p2) p1)"

definition rule_device_name_init ::
  "nat \<Rightarrow> 'e collab \<Rightarrow> nat option \<Rightarrow> 'e parser \<Rightarrow> (bool option, 'e parser) outcome" where
  "rule_device_name_init n cb device_type =
     then_do (rule_device_identifier n)
       (\<lambda>device_name p1.
          case device_name of
            None \<Rightarrow> Done None p1
          | Some dn \<Rightarrow>
              if cur_type p1 = Some BRACK_OPEN then
                then_do get_next_symbol
                  (\<lambda>u p2.
                     let qualifier = cur_id p2
                     in then_do (expect_symbol n NUMBER None)
                          (\<lambda>ok. if ok
                                 then then_do (expect_symbol n BRACK_CLOSE None)
                                        (\<lambda>ok2. initialise_device n cb device_type dn qualifier)
                                 else initialise_device n cb device_type dn qualifier) p2) p1
              else initialise_device n cb device_type dn None p1)"

text \<open>
  The loop of \<^verbatim>\<open>_rule_one_or_more\<close>. The separator and the stopping symbol are symbol
  types in every call, so the test \<^verbatim>\<open>sep is not None or stop is not None\<close> holds.
\<close>

fun one_or_more_loop ::
  "nat \<Rightarrow> ('e parser \<Rightarrow> ('r option, 'e parser) outcome) \<Rightarrow> symtype \<Rightarrow> symtype \<Rightarrow>
   'r option list \<Rightarrow> 'e parser \<Rightarrow> ('r option list, 'e parser) outcome" where
  "one_or_more_loop n rule_func sep stop returns p =
     (if cur_type p = Some sep then
        (case n of
           0 \<Rightarrow> Stop OutOfFuel p
         | Suc k \<Rightarrow>
             (case then_do get_next_symbol (\<lambda>u. rule_func) p of
                Stop r p1 \<Rightarrow> Stop r p1
              | Done x p1 \<Rightarrow>
                  if x = None then
                    (case skip_to_symbol k stop p1 of
                       Stop r p2 \<Rightarrow> Stop r p2
                     | Done u p2 \<Rightarrow> one_or_more_loop k rule_func sep stop (returns @ [x]) p2)
                  else one_or_more_loop k rule_func sep stop (returns @ [x]) p1))
      else if cur_type p = Some stop then then_do get_next_symbol (\<lambda>u. Done returns) p
      else if cur_type p = Some EOF then
        then_do (handle_error n (UNEXPECTED_EOF p) None) (\<lambda>u. Done returns) p
      else
        (case n of
           0 \<Rightarrow> Stop OutOfFuel p
         | Suc k \<Rightarrow>
             (case handle_error k (EXPECTED_SYMBOL p) (Some stop) p of
                Stop r p1 \<Rightarrow> Stop r p1
              | Done u p1 \<Rightarrow> one_or_more_loop k rule_func sep stop returns p1)))"

declare one_or_more_loop.simps [simp del]

definition rule_one_or_more ::
  "nat \<Rightarrow> ('e parser \<Rightarrow> ('r option, 'e parser) outcome) \<Rightarrow> symtype \<Rightarrow> symtype \<Rightarrow>
   'e parser \<Rightarrow> ('r option list, 'e parser) outcome" where
  "rule_one_or_more n rule_func sep stop =
     then_do rule_func (\<lambda>x. one_or_more_loop n rule_func sep stop [x])"

definition rule_device_instantiation ::
  "nat \<Rightarrow> 'e collab \<Rightarrow> 'e parser \<Rightarrow> (unit, 'e parser) outcome" where
  "rule_device_instantiation n cb p =
     (let device_type = cur_id p
      in then_do (expect_keyword n (device_type_keywords_list (scanner p)) (Some SEMICOLON))
           (\<lambda>ok. if ok
                  then then_do (rule_one_or_more n (rule_device_name_init n cb device_type)
                                  COMMA SEMICOLON) (\<lambda>rs. Done ())
                  else Done ()) p)"

definition rule_connection :: "nat \<Rightarrow> 'e collab \<Rightarrow> 'e parser \<Rightarrow> (unit, 'e parser) outcome" where
  "rule_connection n cb =
     then_do
       (then_do (rule_output_identifier n cb)
          (\<lambda>output_conn.
             case output_conn of
               None \<Rightarrow> skip_to_symbol n SEMICOLON
             | Some oc \<Rightarrow>
                 then_do (expect_symbol n GREATER (Some SEMICOLON))
                   (\<lambda>ok. if ok then
                            then_do (rule_input_identifier n cb)
                              (\<lambda>input_conn.
                                 case input_conn of
                                   None \<Rightarrow> skip_to_symbol n SEMICOLON
                                 | Some ic \<Rightarrow>
                                     then_do (make_connection n cb oc ic) (\<lambda>b. Done ()))
                          else Done ())))
       (\<lambda>u. then_do (expect_symbol n SEMICOLON (Some SEMICOLON))
               (\<lambda>ok. if \<not> ok then get_next_symbol else Done ()))"

text \<open>
  The \<^verbatim>\<open>for\<close> loop of \<^verbatim>\<open>_rule_monitor\<close> over the outputs that were parsed.
\<close>

fun monitor_outputs ::
  "nat \<Rightarrow> 'e collab \<Rightarrow> (nat \<times> nat option) option list \<Rightarrow> 'e parser \<Rightarrow> (unit, 'e parser) outcome" where
  "monitor_outputs n cb [] p = Done () p"
| "monitor_outputs n cb (None # outputs) p = monitor_outputs n cb outputs p"
| "monitor_outputs n cb (Some (output_id, output_port) # outputs) p =
     (case monitor_output n cb output_id output_port p of
        Stop r p1 \<Rightarrow> Stop r p1
      | Done b p1 \<Rightarrow> monitor_outputs n cb outputs p1)"

definition rule_monitor :: "nat \<Rightarrow> 'e collab \<Rightarrow> 'e parser \<Rightarrow> (unit, 'e parser) outcome" where
  "rule_monitor n cb p =
     then_do (expect_keyword n [MONITOR_ID (scanner p)] None)
       (\<lambda>ok. then_do (rule_one_or_more n (rule_output_identifier n cb) COMMA SEMICOLON)
                (monitor_outputs n cb)) p"

subsection \<open>The whole parse\<close>

definition finish_parsing :: "nat \<Rightarrow> 'e collab \<Rightarrow> 'e parser \<Rightarrow> (bool, 'e parser) outcome" where
  "finish_parsing n cb p =
     then_do
       (\<lambda>p. if error_count p = 0 then
               (let ok = network_check_network cb (world p);
                    p1 = p\<lparr> trace := trace p @ [CheckNetwork ok] \<rparr>
                in if \<not> ok then handle_error n (NETWORK_INPUTS_UNCONNECTED p1) None p1
                   else Done () p1)
             else Done () p)
       (\<lambda>u p2. Done (error_count p2 = 0) p2) p"

text \<open>
  The first \<^verbatim>\<open>while True\<close> of \<^verbatim>\<open>parse_network\<close>, over the device section. It returns
  \<^verbatim>\<open>True\<close> where the source leaves \<^verbatim>\<open>parse_network\<close> with
  \<^verbatim>\<open>return self._finish_parsing()\<close>, and \<^verbatim>\<open>False\<close> at the \<^verbatim>\<open>break\<close>.
\<close>

fun device_section :: "nat \<Rightarrow> 'e collab \<Rightarrow> 'e parser \<Rightarrow> (bool, 'e parser) outcome" where
  "device_section n cb p =
     (if cur_type p = Some EOF then
        then_do (handle_error n (UNEXPECTED_EOF p) None) (\<lambda>u. Done True) p
      else if symbol_is_keyword p (device_type_keywords_list (scanner p)) then
        (case n of
           0 \<Rightarrow> Stop OutOfFuel p
         | Suc k \<Rightarrow>
             (case rule_device_instantiation k cb p of
                Stop r p1 \<Rightarrow> Stop r p1
              | Done u p1 \<Rightarrow> device_section k cb p1))
      else if symbol_is_keyword p [CONNECTIONS_ID (scanner p)] then Done False p
      else
        (case n of
           0 \<Rightarrow> Stop OutOfFuel p
         | Suc k \<Rightarrow>
             (case then_do (handle_error k (EXPECTED_DEVICE_INSTANTIATION p) (Some SEMICOLON))
                     (\<lambda>u p1. if cur_type p1 \<noteq> Some EOF then get_next_symbol p1 else Done () p1) p of
                Stop r p1 \<Rightarrow> Stop r p1
              | Done u p1 \<Rightarrow> device_section k cb p1)))"

declare device_section.simps [simp del]

text \<open>
  The second \<^verbatim>\<open>while True\<close>, over the connections and the monitor instruction.
\<close>

fun connection_section :: "nat \<Rightarrow> 'e collab \<Rightarrow> 'e parser \<Rightarrow> (unit, 'e parser) outcome" where
  "connection_section n cb p =
     (if symbol_is_keyword p [MONITOR_ID (scanner p)] then rule_monitor n cb p
      else if cur_type p = Some EOF then Done () p
      else if cur_type p = Some NAME then
        (case n of
           0 \<Rightarrow> Stop OutOfFuel p
         | Suc k \<Rightarrow>
             (case rule_connection k cb p of
                Stop r p1 \<Rightarrow> Stop r p1
              | Done u p1 \<Rightarrow> connection_section k cb p1))
      else
        (case n of
           0 \<Rightarrow> Stop OutOfFuel p
         | Suc k \<Rightarrow>
             (case then_do (handle_error k (EXPECTED_CONNECTION p) (Some SEMICOLON))
                     (\<lambda>u p1. if cur_type p1 \<noteq> Some EOF then get_next_symbol p1 else Done () p1) p of
                Stop r p1 \<Rightarrow> Stop r p1
              | Done u p1 \<Rightarrow> connection_section k cb p1)))"

declare connection_section.simps [simp del]

text \<open>
  \<^verbatim>\<open>parse_network\<close>. The first argument bounds the iterations of each loop of the
  parse. The \<^verbatim>\<open>assert\<close> after the first loop is the \<open>Raised\<close> branch.
\<close>

definition parse_network :: "nat \<Rightarrow> 'e collab \<Rightarrow> 'e parser \<Rightarrow> (bool, 'e parser) outcome" where
  "parse_network n cb p =
     then_do get_next_symbol
       (\<lambda>u. then_do (\<lambda>p. expect_keyword n [DEVICES_ID (scanner p)] None p)
         (\<lambda>ok. then_do (expect_symbol n COLON None)
           (\<lambda>ok. then_do (device_section n cb)
             (\<lambda>at_eof p1.
                if at_eof then finish_parsing n cb p1
                else if \<not> symbol_is_keyword p1 [CONNECTIONS_ID (scanner p1)] then Stop Raised p1
                else
                  then_do (expect_keyword n [CONNECTIONS_ID (scanner p1)] None)
                    (\<lambda>ok. then_do (expect_symbol n COLON None)
                      (\<lambda>ok. then_do (connection_section n cb)
                        (\<lambda>u. then_do
                                (\<lambda>p2. if cur_type p2 \<noteq> Some EOF
                                       then handle_error n (EXPECTED_EOF p2) None p2
                                       else Done () p2)
                                (\<lambda>u. finish_parsing n cb)))) p1))))
       (p\<lparr> error_count := 0, symbol := None, trace := [] \<rparr>)"

text \<open>
  The driver (logsim.py) builds the scanner and the parser on the definition file and
  starts the user interface only if \<^verbatim>\<open>parse_network\<close> returns \<^verbatim>\<open>True\<close>. \<open>nms\<close> and \<open>e\<close>
  are the name table and the collaborators' state after their constructors.
\<close>

definition logsim :: "nat \<Rightarrow> 'e collab \<Rightarrow> Names \<Rightarrow> 'e \<Rightarrow> pystr \<Rightarrow> (bool, 'e parser) outcome" where
  "logsim n cb nms e text = parse_network n cb (Parser_init (Scanner_init nms text) e)"


subsection \<open>What a parse did\<close>

fun is_error :: "event \<Rightarrow> bool" where
  "is_error (Error err) = True"
| "is_error _ = False"

text \<open>
  The semantic actions: device construction, connection, monitor creation.
\<close>

fun is_semantic :: "event \<Rightarrow> bool" where
  "is_semantic (MakeDevice d k q) = True"
| "is_semantic (MakeConnection a b c d) = True"
| "is_semantic (MakeMonitor a b) = True"
| "is_semantic _ = False"

fun is_check :: "event \<Rightarrow> bool" where
  "is_check (CheckNetwork ok) = True"
| "is_check _ = False"

definition count_errors :: "event list \<Rightarrow> nat" where
  "count_errors tr = length (filter is_error tr)"

text \<open>
  No semantic action comes after an error.
\<close>

fun no_semantic_after_error :: "event list \<Rightarrow> bool" where
  "no_semantic_after_error [] = True"
| "no_semantic_after_error (ev # evs) =
     (if is_error ev then list_all (\<lambda>x. \<not> is_semantic x) evs
      else no_semantic_after_error evs)"

text \<open>
  The state of the parser agrees with what it did so far: the count is the number of
  errors handled, no semantic action followed an error, and the network has not been
  checked.
\<close>

definition parsing :: "'e parser \<Rightarrow> bool" where
  "parsing p =
     (error_count p = count_errors (trace p) \<and> no_semantic_after_error (trace p) \<and>
      list_all (\<lambda>x. \<not> is_check x) (trace p))"

text \<open>
  How \<^verbatim>\<open>parse_network\<close> ends: it stops in a state in which the parser was parsing, or
  it is \<^verbatim>\<open>_finish_parsing\<close> from such a state.
\<close>

definition finishing :: "nat \<Rightarrow> 'e collab \<Rightarrow> (bool, 'e parser) outcome \<Rightarrow> bool" where
  "finishing n cb r =
     (\<exists>p1. parsing p1 \<and> (r = finish_parsing n cb p1 \<or> (\<exists>x. r = Stop x p1)))"

subsection \<open>Collaborators for concrete runs\<close>

text \<open>
  A small stand-in for the three collaborators, used only to run the parser on concrete
  files: the state is the list of device IDs made so far; making a device that exists
  is an error; every connection and monitor succeeds; \<^verbatim>\<open>check_network\<close> answers
  \<open>connected\<close>.
\<close>

definition simple_collab :: "bool \<Rightarrow> nat list collab" where
  "simple_collab connected =
     \<lparr> devices_make_device =
         (\<lambda>(nms, ds) d k q. if d \<in> set ds then (5, nms, ds) else (0, nms, ds @ [d])),
       devices_get_device = (\<lambda>(nms, ds) d. d \<in> set ds),
       devices_NO_ERROR = 0,
       devices_AND = 0, devices_OR = 1, devices_NAND = 2, devices_NOR = 3, devices_XOR = 4,
       devices_CLOCK = 5, devices_SWITCH = 6, devices_D_TYPE = 7, devices_RC = 8,
       devices_HIGH = 1, devices_LOW = 0,
       devices_Q_ID = 9, devices_QBAR_ID = 10, devices_CLK_ID = 11, devices_DATA_ID = 12,
       devices_SET_ID = 13, devices_CLEAR_ID = 14,
       network_make_connection = (\<lambda>(nms, ds) a b c d. (0, nms, ds)),
       network_check_network = (\<lambda>w. connected),
       network_NO_ERROR = 0,
       network_DEVICE_ABSENT = 13,
       monitors_make_monitor = (\<lambda>(nms, ds) a b. (0, nms, ds)),
       monitors_NO_ERROR = 0 \<rparr>"

subsection \<open>A scanner resting on an invalid character\<close>

text \<open>
  The current character is one character that is neither whitespace, nor a hash, nor
  alphanumeric, nor valid punctuation.
\<close>

definition invalid_char_pending :: "scanner \<Rightarrow> bool" where
  "invalid_char_pending sc =
     (length (current_char sc) = 1 \<and> \<not> isspace (current_char sc) \<and> current_char sc \<noteq> py ''#'' \<and>
      \<not> isalnum (current_char sc) \<and> current_char sc \<notin> set valid_punc)"

subsection \<open>Files of valid characters\<close>

text \<open>
  The characters on which the scanner always goes on: letters, decimal digits,
  whitespace, the hash of comments and the seven punctuation characters. The digits
  that are not decimal and the other numeric characters, which \<^verbatim>\<open>isalnum\<close> accepts too,
  are not among them.
\<close>

definition valid_char :: "pychar \<Rightarrow> bool" where
  "valid_char c =
     (char_isalpha c \<or> char_isdecimal c \<or> char_isspace c \<or> c = Ch CHR ''#'' \<or>
      [c] \<in> set valid_punc)"

text \<open>
  The length of the longest run of digits in a string.
\<close>

fun max_digits :: "pystr \<Rightarrow> nat" where
  "max_digits [] = 0"
| "max_digits (c # cs) = max (length (takeWhile char_isdigit (c # cs))) (max_digits cs)"


definition chars :: "scanner \<Rightarrow> pychar set" where
  "chars sc = set (current_char sc) \<union> set (obj_file sc)"

definition text_left :: "scanner \<Rightarrow> pystr" where
  "text_left sc = current_char sc @ obj_file sc"

definition scanner_ok :: "scanner \<Rightarrow> bool" where
  "scanner_ok sc =
     (length (current_char sc) \<le> 1 \<and> (\<forall>c\<in>chars sc. valid_char c) \<and>
      max_digits (text_left sc) \<le> int_max_str_digits)"


text \<open>
  A parser whose scanner is on a file of valid characters, with keyword IDs \<open>K\<close>, and
  whose current symbol has a type; and a bound on the symbols it can still consume.
\<close>

definition parser_ok :: "nat list \<Rightarrow> 'e parser \<Rightarrow> bool" where
  "parser_ok K p = (scanner_ok (scanner p) \<and> cur_type p \<noteq> None \<and> keyword_ids (scanner p) = K)"

definition to_read :: "'e parser \<Rightarrow> nat" where
  "to_read p = remaining (scanner p) + (if cur_type p = Some EOF then 0 else 1)"


section \<open>Properties of the name table\<close>

subsection \<open>Positions in the list of names\<close>

lemma list_index_le: "list_index xs x \<le> length xs"
  by (induction xs) auto

lemma list_index_mem: "x \<in> set xs \<Longrightarrow> list_index xs x < length xs \<and> xs ! list_index xs x = x"
  by (induction xs) auto

lemma list_index_first: "j < list_index xs x \<Longrightarrow> xs ! j \<noteq> x"
proof (induction xs arbitrary: j)
  case Nil then show ?case by simp
next
  case (Cons y ys)
  then show ?case by (cases j) (auto split: if_splits)
qed

lemma list_index_append: "x \<in> set xs \<Longrightarrow> list_index (xs @ ys) x = list_index xs x"
  by (induction xs) auto

lemma list_index_fresh: "x \<notin> set xs \<Longrightarrow> list_index (xs @ [x]) x = length xs"
  by (induction xs) auto

lemma list_index_nth: "distinct xs \<Longrightarrow> i < length xs \<Longrightarrow> list_index xs (xs ! i) = i"
proof (induction xs arbitrary: i)
  case Nil then show ?case by simp
next
  case (Cons y ys)
  then show ?case by (cases i) auto
qed

lemma lookup_loop_prefix: "lookup_loop s xs ids = (r, s') \<Longrightarrow> prefix (names s) (names s')"
proof (induction xs arbitrary: s ids)
  case Nil then show ?case by simp
next
  case (Cons x xs)
  let ?s1 = "if x \<notin> set (names s) then s\<lparr> names := names s @ [x] \<rparr> else s"
  from Cons.prems have "lookup_loop ?s1 xs (ids @ [list_index (names ?s1) x]) = (r, s')"
    by (simp add: Let_def)
  from Cons.IH[OF this] have "prefix (names ?s1) (names s')" .
  moreover have "prefix (names s) (names ?s1)" by simp
  ultimately show ?case using prefix_order.trans by blast
qed

lemma lookup_loop_ecc: "lookup_loop s xs ids = (r, s') \<Longrightarrow> error_code_count s' = error_code_count s"
  by (induction xs arbitrary: s ids) (auto simp: Let_def split: if_splits)

lemma lookup_loop_distinct: "lookup_loop s xs ids = (r, s') \<Longrightarrow> distinct (names s) \<Longrightarrow> distinct (names s')"
  by (induction xs arbitrary: s ids) (auto simp: Let_def split: if_splits)

lemma lookup_loop_set: "lookup_loop s xs ids = (r, s') \<Longrightarrow> set (names s') = set (names s) \<union> set xs"
  by (induction xs arbitrary: s ids) (auto simp: Let_def split: if_splits)

lemma list_index_prefix: "prefix xs ys \<Longrightarrow> x \<in> set xs \<Longrightarrow> list_index ys x = list_index xs x"
  by (auto simp: prefix_def list_index_append)

lemma lookup_loop_ids:
  "lookup_loop s xs ids = (r, s') \<Longrightarrow> r = ids @ map (list_index (names s')) xs"
proof (induction xs arbitrary: s ids)
  case Nil then show ?case by simp
next
  case (Cons x xs)
  let ?s1 = "if x \<notin> set (names s) then s\<lparr> names := names s @ [x] \<rparr> else s"
  from Cons.prems have run: "lookup_loop ?s1 xs (ids @ [list_index (names ?s1) x]) = (r, s')"
    by (simp add: Let_def)
  have mem: "x \<in> set (names ?s1)" by simp
  have "prefix (names ?s1) (names s')" using lookup_loop_prefix[OF run] .
  then have "list_index (names s') x = list_index (names ?s1) x"
    using mem by (rule list_index_prefix)
  with Cons.IH[OF run] show ?case by simp
qed

lemma lookup_unchanged: "set xs \<subseteq> set (names s) \<Longrightarrow> snd (lookup_loop s xs ids) = s"
  by (induction xs arbitrary: ids) (auto simp: Let_def)

lemma run_op_prefix: "prefix (names s) (names (run_op s op))"
  by (cases op) (auto simp: lookup_def query_def get_name_string_def unique_error_codes_def Let_def
      intro: lookup_loop_prefix[OF surjective_pairing])

lemma run_op_distinct: "distinct (names s) \<Longrightarrow> distinct (names (run_op s op))"
  by (cases op) (auto simp: lookup_def query_def get_name_string_def unique_error_codes_def Let_def
      intro: lookup_loop_distinct[OF surjective_pairing])

lemma run_ops_prefix: "prefix (names s) (names (run_ops s ops))"
  unfolding run_ops_def
proof (induction ops arbitrary: s)
  case Nil show ?case by simp
next
  case (Cons op ops)
  have "prefix (names s) (names (run_op s op))" by (rule run_op_prefix)
  also have "prefix (names (run_op s op)) (names (foldl run_op (run_op s op) ops))" by (rule Cons.IH)
  finally show ?case by simp
qed

lemma run_ops_distinct: "distinct (names s) \<Longrightarrow> distinct (names (run_ops s ops))"
  unfolding run_ops_def
  by (induction ops arbitrary: s) (auto simp: run_op_distinct)

lemma run_ops_init_distinct: "distinct (names (run_ops Names_init ops))"
  using run_ops_distinct[of Names_init ops] by (simp add: Names_init_def)

lemma lookup_length: "length (fst (lookup s xs)) = length xs"
  using lookup_loop_ids[OF surjective_pairing, of s xs "[]"] by (simp add: lookup_def)

lemma lookup_nth:
  assumes "k < length xs"
  shows "fst (get_name_string (snd (lookup s xs)) (int (fst (lookup s xs) ! k))) = Inr (Some (xs ! k))"
proof -
  let ?s' = "snd (lookup s xs)"
  have ids: "fst (lookup s xs) = map (list_index (names ?s')) xs"
    using lookup_loop_ids[OF surjective_pairing, of s xs "[]"] by (simp add: lookup_def)
  have "set (names ?s') = set (names s) \<union> set xs"
    using lookup_loop_set[OF surjective_pairing, of s xs "[]"] by (simp add: lookup_def)
  with assms have "xs ! k \<in> set (names ?s')" by simp
  from list_index_mem[OF this] ids assms show ?thesis
    by (simp add: get_name_string_def)
qed

subsection \<open>Round trip between names and IDs\<close>

text \<open>
  Claim C4. In every table reached from a fresh one by calls of the public methods,
  \<^verbatim>\<open>lookup\<close> returns one ID per input string, in the order of the input: the ID at
  position \<open>k\<close> names the string at position \<open>k\<close>. In particular
  \<^verbatim>\<open>get_name_string(lookup([x])[0])\<close> is \<open>x\<close>. Conversely every assigned ID \<open>i\<close>
  has a name string, and \<^verbatim>\<open>lookup\<close> of that string returns \<open>i\<close> again and leaves the
  table as it is.
\<close>

theorem names_round_trip:
  fixes ops :: "names_op list" and xs :: "pystr list" and x :: pystr and i :: nat
  defines "s \<equiv> run_ops Names_init ops"
  shows "length (fst (lookup s xs)) = length xs \<and>
     (\<forall>k < length xs.
        fst (get_name_string (snd (lookup s xs)) (int (fst (lookup s xs) ! k))) = Inr (Some (xs ! k))) \<and>
     fst (get_name_string (snd (lookup s [x])) (int (fst (lookup s [x]) ! 0))) = Inr (Some x) \<and>
     (i < length (names s) \<longrightarrow>
        (\<exists>str. fst (get_name_string s (int i)) = Inr (Some str) \<and>
               fst (lookup s [str]) ! 0 = i \<and> fst (lookup s [str]) = [i] \<and>
               snd (lookup s [str]) = s))"
proof (intro conjI allI impI)
  show "length (fst (lookup s xs)) = length xs" by (rule lookup_length)
next
  fix k assume "k < length xs"
  then show "fst (get_name_string (snd (lookup s xs)) (int (fst (lookup s xs) ! k))) = Inr (Some (xs ! k))"
    by (rule lookup_nth)
next
  show "fst (get_name_string (snd (lookup s [x])) (int (fst (lookup s [x]) ! 0))) = Inr (Some x)"
    using lookup_nth[of 0 "[x]" s] by simp
next
  assume i: "i < length (names s)"
  have d: "distinct (names s)" unfolding s_def by (rule run_ops_init_distinct)
  let ?str = "names s ! i"
  have mem: "?str \<in> set (names s)" using i by simp
  have "fst (get_name_string s (int i)) = Inr (Some ?str)"
    using i by (simp add: get_name_string_def)
  moreover have "fst (lookup s [?str]) = [i]"
    using mem list_index_nth[OF d i] by (simp add: lookup_def Let_def)
  moreover have "snd (lookup s [?str]) = s"
    using mem by (simp add: lookup_def Let_def)
  ultimately show "\<exists>str. fst (get_name_string s (int i)) = Inr (Some str) \<and>
               fst (lookup s [str]) ! 0 = i \<and> fst (lookup s [str]) = [i] \<and>
               snd (lookup s [str]) = s"
    by simp
qed

theorem names_round_trip_witness:
  "length (fst (lookup (run_ops Names_init [Lookup [py ''Alice'', py ''Bob'', py ''Eve'']]) [py ''Bob'', py ''Zed''])) = 2 \<and>
   fst (lookup (run_ops Names_init [Lookup [py ''Alice'', py ''Bob'', py ''Eve'']]) [py ''Bob'', py ''Zed'']) = [1, 3] \<and>
   (1::nat) < length (names (run_ops Names_init [Lookup [py ''Alice'', py ''Bob'', py ''Eve'']])) \<and>
   fst (get_name_string (run_ops Names_init [Lookup [py ''Alice'', py ''Bob'', py ''Eve'']]) 1) = Inr (Some (py ''Bob'')) \<and>
   fst (lookup (run_ops Names_init [Lookup [py ''Alice'', py ''Bob'', py ''Eve'']]) [py ''Bob'']) = [1]"
  using names_round_trip[of "[Lookup [py ''Alice'', py ''Bob'', py ''Eve'']]" "[py ''Bob'', py ''Zed'']" "py ''Bob''" 1]
  by (simp add: run_ops_def lookup_def Names_init_def Let_def get_name_string_def)

subsection \<open>The error-code allocator\<close>

lemma py_range_append: "0 \<le> a \<Longrightarrow> 0 \<le> b \<Longrightarrow> py_range c (c + a) @ py_range (c + a) (c + a + b) = py_range c (c + a + b)"
  unfolding py_range_def
  by (cases "a = 0") (auto simp: upto_split2[of c "c + a - 1" "c + a + b - 1"] )

lemma reserve_all_concat:
  "\<forall>n\<in>set ns. 0 \<le> n \<Longrightarrow>
   concat (fst (reserve_all s ns)) = py_range (error_code_count s) (error_code_count s + sum_list ns) \<and>
   map length (fst (reserve_all s ns)) = map nat ns"
proof (induction ns arbitrary: s)
  case Nil show ?case by (simp add: py_range_def)
next
  case (Cons n ns)
  let ?s1 = "snd (unique_error_codes s n)"
  have c1: "error_code_count ?s1 = error_code_count s + n" by (simp add: unique_error_codes_def Let_def)
  have r1: "fst (unique_error_codes s n) = py_range (error_code_count s) (error_code_count s + n)"
    by (simp add: unique_error_codes_def Let_def)
  have nn: "0 \<le> n" "0 \<le> sum_list ns" using Cons.prems by (auto intro: sum_list_nonneg)
  have ih: "concat (fst (reserve_all ?s1 ns)) = py_range (error_code_count ?s1) (error_code_count ?s1 + sum_list ns)"
      "map length (fst (reserve_all ?s1 ns)) = map nat ns"
    using Cons.IH[of ?s1] Cons.prems by auto
  show ?case using ih r1 c1 py_range_append[OF nn, of "error_code_count s"]
    by (auto simp: case_prod_unfold Let_def add.assoc py_range_def)
qed

text \<open>
  Claim C5. For non-negative \<open>a\<close> and \<open>b\<close>, two successive calls of
  \<^verbatim>\<open>unique_error_codes\<close> return \<open>a\<close> and \<open>b\<close> codes without repetition, the two
  ranges are disjoint, every code of the second call is above every code of the first,
  and no code is below the counter before the calls (which is above every code handed
  out earlier). Over a whole session of non-negative requests the codes handed out are
  pairwise different and increasing: none is handed out twice.
\<close>

theorem error_codes_fresh:
  assumes "0 \<le> a" and "0 \<le> b" and "\<forall>n\<in>set ns. 0 \<le> n"
  shows "(let (r1, s1) = unique_error_codes s a; (r2, s2) = unique_error_codes s1 b
          in length r1 = nat a \<and> length r2 = nat b \<and> distinct r1 \<and> distinct r2 \<and>
             set r1 \<inter> set r2 = {} \<and>
             (\<forall>x\<in>set r1. \<forall>y\<in>set r2. x < y) \<and>
             (\<forall>y\<in>set r1 \<union> set r2. error_code_count s \<le> y) \<and>
             error_code_count s2 = error_code_count s + a + b) \<and>
         map length (fst (reserve_all s ns)) = map nat ns \<and>
         distinct (concat (fst (reserve_all s ns))) \<and>
         sorted (concat (fst (reserve_all s ns))) \<and>
         (\<forall>y\<in>set (concat (fst (reserve_all s ns))). error_code_count s \<le> y)"
proof -
  have two: "(let (r1, s1) = unique_error_codes s a; (r2, s2) = unique_error_codes s1 b
          in length r1 = nat a \<and> length r2 = nat b \<and> distinct r1 \<and> distinct r2 \<and>
             set r1 \<inter> set r2 = {} \<and>
             (\<forall>x\<in>set r1. \<forall>y\<in>set r2. x < y) \<and>
             (\<forall>y\<in>set r1 \<union> set r2. error_code_count s \<le> y) \<and>
             error_code_count s2 = error_code_count s + a + b)"
    using assms(1,2) by (auto simp: unique_error_codes_def Let_def py_range_def)
  have c: "concat (fst (reserve_all s ns)) = py_range (error_code_count s) (error_code_count s + sum_list ns)"
    and l: "map length (fst (reserve_all s ns)) = map nat ns"
    using reserve_all_concat[OF assms(3)] by auto
  have "distinct (concat (fst (reserve_all s ns)))" "sorted (concat (fst (reserve_all s ns)))"
    "\<forall>y\<in>set (concat (fst (reserve_all s ns))). error_code_count s \<le> y"
    unfolding c py_range_def by auto
  with two l show ?thesis by blast
qed

theorem error_codes_fresh_witness:
  "(0::int) \<le> 5 \<and> (0::int) \<le> 3 \<and>
   fst (unique_error_codes Names_init 5) = [0, 1, 2, 3, 4] \<and>
   fst (unique_error_codes (snd (unique_error_codes Names_init 5)) 3) = [5, 6, 7] \<and>
   fst (reserve_all Names_init [5, 3]) = [[0, 1, 2, 3, 4], [5, 6, 7]] \<and>
   distinct (concat (fst (reserve_all Names_init [5, 3])))"
  using error_codes_fresh[of 5 3 "[5, 3]" Names_init]
  by (simp add: unique_error_codes_def Names_init_def py_range_def Let_def upto.simps)

subsection \<open>Querying a name\<close>

text \<open>
  On the characters of ASCII, Python's classes are the letters and digits of ASCII.
\<close>

lemma ascii_classes:
  assumes "is_ascii c"
  shows "char_isalnum c \<longleftrightarrow> ascii_letter c \<or> ascii_digit c"
    and "char_isdigit c \<longleftrightarrow> ascii_digit c"
    and "char_isalpha c \<longleftrightarrow> ascii_letter c"
  using assms
  by (cases c; simp add: is_ascii_def ascii_letter_def ascii_digit_def char_isalnum_def
      char_isdigit_def char_isalpha_def latin1_class_def Let_def; fail | arith)+

lemma ascii_strings:
  assumes "list_all is_ascii x"
  shows "isalnum x \<longleftrightarrow> spec_alphanumeric x" and "isdigit x \<longleftrightarrow> spec_numeric x"
  using assms
  by (auto simp: isalnum_def isdigit_def spec_alphanumeric_def spec_numeric_def list_all_iff
      ascii_classes)

text \<open>
  Claim C6, as the code has it. \<^verbatim>\<open>query\<close> raises exactly when \<^verbatim>\<open>str.isalnum\<close> rejects its
  argument (the empty string, or a string with a character that is not alphanumeric)
  or \<^verbatim>\<open>str.isdigit\<close> accepts it (a non-empty string of digits), and what it raises is
  \<^verbatim>\<open>SyntaxError\<close>. On a string of ASCII characters this is to say that the string is
  not alphanumeric, or is purely numeric, in the words of the specification.
  Otherwise \<^verbatim>\<open>query\<close> returns the ID of the string, the first position holding it, when
  the string is in the table, and \<^verbatim>\<open>None\<close> when it is not. In every case the table is
  unchanged.
\<close>

theorem query_result:
  "(isl (fst (query s x)) \<longleftrightarrow>
      (x = [] \<or> (\<exists>c\<in>set x. \<not> char_isalnum c)) \<or> (x \<noteq> [] \<and> (\<forall>c\<in>set x. char_isdigit c))) \<and>
   (list_all is_ascii x \<longrightarrow>
      (isl (fst (query s x)) \<longleftrightarrow> \<not> spec_alphanumeric x \<or> spec_numeric x)) \<and>
   (isl (fst (query s x)) \<longrightarrow> fst (query s x) = Inl SyntaxError) \<and>
   (\<not> isl (fst (query s x)) \<and> x \<in> set (names s) \<longrightarrow>
      (\<exists>i. fst (query s x) = Inr (Some i) \<and> i < length (names s) \<and> names s ! i = x \<and>
           (\<forall>j<i. names s ! j \<noteq> x))) \<and>
   (\<not> isl (fst (query s x)) \<and> x \<notin> set (names s) \<longrightarrow> fst (query s x) = Inr None) \<and>
   snd (query s x) = s"
proof -
  have r: "isl (fst (query s x)) \<longleftrightarrow> \<not> isalnum x \<or> isdigit x"
    by (simp add: query_def)
  have a: "list_all is_ascii x \<longrightarrow>
      (isl (fst (query s x)) \<longleftrightarrow> \<not> spec_alphanumeric x \<or> spec_numeric x)"
    using r ascii_strings[of x] by blast
  have b: "(isl (fst (query s x)) \<longleftrightarrow>
      (x = [] \<or> (\<exists>c\<in>set x. \<not> char_isalnum c)) \<or> (x \<noteq> [] \<and> (\<forall>c\<in>set x. char_isdigit c))) \<and>
   (isl (fst (query s x)) \<longrightarrow> fst (query s x) = Inl SyntaxError) \<and>
   (\<not> isl (fst (query s x)) \<and> x \<in> set (names s) \<longrightarrow>
      (\<exists>i. fst (query s x) = Inr (Some i) \<and> i < length (names s) \<and> names s ! i = x \<and>
           (\<forall>j<i. names s ! j \<noteq> x))) \<and>
   (\<not> isl (fst (query s x)) \<and> x \<notin> set (names s) \<longrightarrow> fst (query s x) = Inr None) \<and>
   snd (query s x) = s"
    by (auto simp: query_def isalnum_def isdigit_def list_all_iff list_index_mem list_index_first)
  from a b show ?thesis by blast
qed

theorem query_result_witness:
  "list_all is_ascii (py ''3?'') \<and> \<not> spec_alphanumeric (py ''3?'') \<and>
   isl (fst (query \<lparr>names = [py ''Alice'', py ''Bob'', py ''Eve''], error_code_count = 0\<rparr> (py ''3?''))) \<and>
   list_all is_ascii (py ''Bob'') \<and> spec_alphanumeric (py ''Bob'') \<and> \<not> spec_numeric (py ''Bob'') \<and>
   \<not> isl (fst (query \<lparr>names = [py ''Alice'', py ''Bob'', py ''Eve''], error_code_count = 0\<rparr> (py ''Bob''))) \<and>
   fst (query \<lparr>names = [py ''Alice'', py ''Bob'', py ''Eve''], error_code_count = 0\<rparr> (py ''Bob'')) = Inr (Some 1) \<and>
   snd (query \<lparr>names = [py ''Alice'', py ''Bob'', py ''Eve''], error_code_count = 0\<rparr> (py ''Bob''))
     = \<lparr>names = [py ''Alice'', py ''Bob'', py ''Eve''], error_code_count = 0\<rparr> \<and>
   fst (query \<lparr>names = [py ''Alice'', py ''Bob'', py ''Eve''], error_code_count = 0\<rparr> (py ''Zed'')) = Inr None \<and>
   fst (query \<lparr>names = [py ''Alice'', py ''Bob'', py ''Eve''], error_code_count = 0\<rparr> (py ''3?'')) = Inl SyntaxError \<and>
   fst (query \<lparr>names = [py ''Alice'', py ''Bob'', py ''Eve''], error_code_count = 0\<rparr> (py ''3'')) = Inl SyntaxError \<and>
   fst (query \<lparr>names = [py ''Alice'', py ''Bob'', py ''Eve''], error_code_count = 0\<rparr> []) = Inl SyntaxError"
proof -
  let ?t = "\<lparr>names = [py ''Alice'', py ''Bob'', py ''Eve''], error_code_count = 0\<rparr>"
  have a1: "list_all is_ascii (py ''3?'')" and a2: "list_all is_ascii (py ''Bob'')"
    by (simp_all add: is_ascii_def)
  have s1: "\<not> spec_alphanumeric (py ''3?'')"
    and s2: "spec_alphanumeric (py ''Bob'')" and s3: "\<not> spec_numeric (py ''Bob'')"
    by (simp_all add: spec_alphanumeric_def spec_numeric_def ascii_letter_def ascii_digit_def)
  note q1 = query_result[of ?t "py ''3?''", THEN conjunct2, THEN conjunct1, THEN mp, OF a1]
  note q2 = query_result[of ?t "py ''Bob''", THEN conjunct2, THEN conjunct1, THEN mp, OF a2]
  from q1 s1 have i1: "isl (fst (query ?t (py ''3?'')))" by blast
  from q2 s2 s3 have i2: "\<not> isl (fst (query ?t (py ''Bob'')))" by blast
  have u: "snd (query ?t (py ''Bob'')) = ?t"
    using query_result[of ?t "py ''Bob''"] by (elim conjE)
  have c: "fst (query ?t (py ''Bob'')) = Inr (Some 1)"
    "fst (query ?t (py ''Zed'')) = Inr None"
    "fst (query ?t (py ''3?'')) = Inl SyntaxError"
    "fst (query ?t (py ''3'')) = Inl SyntaxError"
    "fst (query ?t []) = Inl SyntaxError"
    by (simp_all add: query_def isalnum_def isdigit_def char_isalnum_def char_isalpha_def
        char_isdigit_def latin1_class_def Let_def)
  from a1 s1 i1 a2 s2 s3 i2 u c show ?thesis by (intro conjI)
qed

text \<open>
  The claim as stated, for every string, fails at the one-character strings U+00E9
  (e with acute accent) and U+00BD (the fraction one half): neither is alphanumeric in
  the alphabet of the specification, and the second is nothing but a numeric
  character, yet \<^verbatim>\<open>str.isalnum\<close> accepts both and \<^verbatim>\<open>str.isdigit\<close> rejects both, so
  \<^verbatim>\<open>query\<close> does not raise: it returns \<^verbatim>\<open>None\<close>, or the ID once the string is in the
  table.
\<close>

theorem query_accepts_non_ascii:
  "\<not> spec_alphanumeric [Ch (CHR 0xE9)] \<and>
   fst (query Names_init [Ch (CHR 0xE9)]) = Inr None \<and>
   fst (query (snd (lookup Names_init [[Ch (CHR 0xE9)]])) [Ch (CHR 0xE9)]) = Inr (Some 0) \<and>
   \<not> spec_alphanumeric [Ch (CHR 0xBD)] \<and>
   fst (query Names_init [Ch (CHR 0xBD)]) = Inr None"
  by (simp add: spec_alphanumeric_def ascii_letter_def ascii_digit_def query_def Names_init_def
      lookup_def isalnum_def isdigit_def char_isalnum_def char_isdigit_def latin1_class_def Let_def)

subsection \<open>Reading the name of an ID\<close>

text \<open>
  Claim C7, as the code has it. For an ID that is an index of the list,
  \<^verbatim>\<open>get_name_string\<close> returns the stored string; for an ID at or beyond the number of
  stored names it returns \<^verbatim>\<open>None\<close>; for an ID below zero it raises
  \<^verbatim>\<open>ValueError\<close>. The table is unchanged.
\<close>

theorem get_name_string_result:
  "(0 \<le> i \<and> nat i < length (names s) \<longrightarrow> fst (get_name_string s i) = Inr (Some (names s ! nat i))) \<and>
   (0 \<le> i \<and> length (names s) \<le> nat i \<longrightarrow> fst (get_name_string s i) = Inr None) \<and>
   (i < 0 \<longrightarrow> fst (get_name_string s i) = Inl ValueError) \<and>
   snd (get_name_string s i) = s"
  by (auto simp: get_name_string_def)

theorem get_name_string_result_witness:
  "fst (get_name_string \<lparr>names = [py ''Alice'', py ''Bob'', py ''Eve''], error_code_count = 0\<rparr> 2) = Inr (Some (py ''Eve'')) \<and>
   fst (get_name_string \<lparr>names = [py ''Alice'', py ''Bob'', py ''Eve''], error_code_count = 0\<rparr> 3) = Inr None \<and>
   fst (get_name_string \<lparr>names = [py ''Alice'', py ''Bob'', py ''Eve''], error_code_count = 0\<rparr> (- 1)) = Inl ValueError"
  using get_name_string_result[of 2 "\<lparr>names = [py ''Alice'', py ''Bob'', py ''Eve''], error_code_count = 0\<rparr>"]
    get_name_string_result[of 3 "\<lparr>names = [py ''Alice'', py ''Bob'', py ''Eve''], error_code_count = 0\<rparr>"]
    get_name_string_result[of "- 1" "\<lparr>names = [py ''Alice'', py ''Bob'', py ''Eve''], error_code_count = 0\<rparr>"]
  by (simp add: get_name_string_def)

text \<open>
  The claim as stated, returning \<^verbatim>\<open>None\<close> without raising for every ID out of range,
  fails at the ID \<open>-1\<close>.
\<close>

theorem get_name_string_negative_raises:
  "fst (get_name_string (snd (lookup Names_init [py ''Alice'', py ''Bob'', py ''Eve''])) (- 1)) = Inl ValueError"
  by (simp add: get_name_string_def)

subsection \<open>The table only grows\<close>

lemma run_op_identifiers:
  "\<forall>n\<in>set (names s). is_identifier n \<Longrightarrow> lookup_args_ok op \<Longrightarrow>
   \<forall>n\<in>set (names (run_op s op)). is_identifier n"
  by (cases op) (auto simp: lookup_def query_def get_name_string_def unique_error_codes_def Let_def
      list_all_iff lookup_loop_set[OF surjective_pairing])

lemma run_ops_identifiers:
  "\<forall>n\<in>set (names s). is_identifier n \<Longrightarrow> \<forall>op\<in>set ops. lookup_args_ok op \<Longrightarrow>
   \<forall>n\<in>set (names (run_ops s ops)). is_identifier n"
  unfolding run_ops_def
proof (induction ops arbitrary: s)
  case Nil then show ?case by simp
next
  case (Cons op ops)
  have "\<forall>n\<in>set (names (run_op s op)). is_identifier n"
    using Cons.prems by (intro run_op_identifiers) auto
  from Cons.IH[OF this] Cons.prems(2) show ?case by simp
qed

text \<open>
  Claim C9, as the code has it. Over every sequence of calls of the public methods the
  list of names only grows at its end: the old list is a prefix of the new one, so
  every ID keeps its string and every stored string keeps its ID (\<^verbatim>\<open>get_name_string\<close>
  and \<^verbatim>\<open>query\<close> answer as before on what was stored), and a list without
  repetition stays so. When the stored names are identifiers and every string given to
  \<^verbatim>\<open>lookup\<close> is an identifier, every stored name is non-empty, alphanumeric and
  starts with a letter.
\<close>

theorem names_append_only:
  "prefix (names s) (names (run_ops s ops)) \<and>
   (\<forall>i<length (names s).
      fst (get_name_string (run_ops s ops) (int i)) = fst (get_name_string s (int i))) \<and>
   (\<forall>x\<in>set (names s). fst (query (run_ops s ops) x) = fst (query s x)) \<and>
   (distinct (names s) \<longrightarrow> distinct (names (run_ops s ops))) \<and>
   ((\<forall>n\<in>set (names s). is_identifier n) \<and> (\<forall>op\<in>set ops. lookup_args_ok op) \<longrightarrow>
      (\<forall>n\<in>set (names (run_ops s ops)). n \<noteq> [] \<and> isalnum n \<and> char_isalpha (hd n)))"
proof -
  have p: "prefix (names s) (names (run_ops s ops))" by (rule run_ops_prefix)
  then obtain zs where zs: "names (run_ops s ops) = names s @ zs" by (auto simp: prefix_def)
  have g: "\<forall>i<length (names s).
      fst (get_name_string (run_ops s ops) (int i)) = fst (get_name_string s (int i))"
    by (simp add: get_name_string_def zs nth_append)
  have q: "\<forall>x\<in>set (names s). fst (query (run_ops s ops) x) = fst (query s x)"
    by (simp add: query_def zs list_index_append)
  have d: "distinct (names s) \<longrightarrow> distinct (names (run_ops s ops))"
    by (simp add: run_ops_distinct)
  have i: "(\<forall>n\<in>set (names s). is_identifier n) \<and> (\<forall>op\<in>set ops. lookup_args_ok op) \<longrightarrow>
      (\<forall>n\<in>set (names (run_ops s ops)). n \<noteq> [] \<and> isalnum n \<and> char_isalpha (hd n))"
  proof (intro impI ballI)
    fix n assume a: "(\<forall>n\<in>set (names s). is_identifier n) \<and> (\<forall>op\<in>set ops. lookup_args_ok op)"
      and n: "n \<in> set (names (run_ops s ops))"
    from a have "\<forall>n\<in>set (names (run_ops s ops)). is_identifier n"
      by (intro run_ops_identifiers) simp_all
    with n have "is_identifier n" by simp
    then show "n \<noteq> [] \<and> isalnum n \<and> char_isalpha (hd n)"
      by (simp add: is_identifier_def isalnum_def)
  qed
  show ?thesis
    apply (rule conjI[OF p])
    apply (rule conjI[OF g])
    apply (rule conjI[OF q])
    apply (rule conjI[OF d])
    apply (rule i)
    done
qed

theorem names_append_only_witness:
  "names (run_ops \<lparr>names = [py ''CLOCK''], error_code_count = 0\<rparr>
      [Lookup [py ''SW1'', py ''CLOCK''], Query (py ''SW1''), UniqueErrorCodes 8, GetNameString 1, Lookup [py ''A1'']])
     = [py ''CLOCK'', py ''SW1'', py ''A1''] \<and>
   prefix [py ''CLOCK''] [py ''CLOCK'', py ''SW1'', py ''A1''] \<and>
   is_identifier (py ''CLOCK'') \<and> is_identifier (py ''SW1'') \<and> is_identifier (py ''A1'')"
  using names_append_only[of "\<lparr>names = [py ''CLOCK''], error_code_count = 0\<rparr>"
      "[Lookup [py ''SW1'', py ''CLOCK''], Query (py ''SW1''), UniqueErrorCodes 8, GetNameString 1, Lookup [py ''A1'']]"]
  by (simp add: run_ops_def lookup_def query_def unique_error_codes_def get_name_string_def Let_def
      is_identifier_def isalnum_def char_isalnum_def char_isalpha_def char_isdigit_def
      latin1_class_def)

text \<open>
  Without the condition on the arguments the last part fails: \<^verbatim>\<open>lookup\<close> stores
  whatever strings it is given, the empty string and \<^verbatim>\<open>3?\<close> among them.
\<close>

theorem lookup_stores_any_string:
  "names (run_ops Names_init [Lookup [[], py ''3?'']]) = [[], py ''3?''] \<and>
   \<not> isalnum (py ''3?'') \<and> \<not> char_isalpha (hd (py ''3?''))"
  by (simp add: run_ops_def lookup_def Names_init_def Let_def isalnum_def char_isalnum_def
      char_isalpha_def char_isdigit_def latin1_class_def)


section \<open>Properties of the scanner\<close>

subsection \<open>The end of the file\<close>

text \<open>
  Once the file is consumed (\<open>current_char\<close> is the empty string), \<^verbatim>\<open>get_symbol\<close> returns
  an \<open>EOF\<close> symbol with no id and leaves the scanner as it is, so every later call does
  the same. A scanner resting on an invalid character does not move either, but the
  symbol it returns has no type.
\<close>

lemma get_symbol_eof:
  assumes "current_char sc = []"
  shows "get_symbol sc =
    Return (\<lparr> sym_type = Some EOF, sym_id = None, sym_line_num = line_num sc,
              sym_char_num = char_num sc \<rparr>, sc)"
proof -
  have "next_valid_char sc = Return sc"
    using assms by (subst next_valid_char.simps) (simp add: isspace_def)
  then show ?thesis using assms by (simp add: get_symbol_def char_dict_def Symbol_def)
qed

lemma isalpha_isalnum: "isalpha s \<Longrightarrow> isalnum s"
  and isdigit_isalnum: "isdigit s \<Longrightarrow> isalnum s"
  by (auto simp: isalpha_def isdigit_def isalnum_def char_isalnum_def char_isalpha_def
      char_isdigit_def list_all_iff split: uclass.splits)

lemma get_symbol_invalid_char:
  assumes "invalid_char_pending sc"
  shows "get_symbol sc =
    Return (\<lparr> sym_type = None, sym_id = None, sym_line_num = line_num sc,
              sym_char_num = char_num sc \<rparr>, sc)"
proof -
  from assms have a: "\<not> isspace (current_char sc)" "current_char sc \<noteq> py ''#''"
    "\<not> isalnum (current_char sc)" "current_char sc \<notin> set valid_punc"
    by (simp_all add: invalid_char_pending_def)
  have v: "next_valid_char sc = Return sc"
    using a by (subst next_valid_char.simps) simp
  have d: "map_of char_dict (current_char sc) = None"
    using a(4) by (auto simp: char_dict_def valid_punc_def)
  have e: "current_char sc \<noteq> []" using a(4) by (auto simp: valid_punc_def)
  have "\<not> isalpha (current_char sc)" "\<not> isdigit (current_char sc)"
    using a(3) isalpha_isalnum isdigit_isalnum by blast+
  with v d e show ?thesis by (simp add: get_symbol_def Symbol_def)
qed

text \<open>
  A digit that is not a decimal digit, here the superscript two (U+00B2) after the digit
  2, is collected by the loop of \<^verbatim>\<open>_get_number\<close> and makes \<^verbatim>\<open>int\<close> raise.
\<close>

lemma get_symbol_other_digit:
  "(case get_symbol (Scanner_init Names_init [Ch CHR ''2'', Ch (CHR 0xB2)]) of
      Raise e sc \<Rightarrow> e = ValueError \<and> current_char sc = [] | _ \<Rightarrow> False)"
  by code_simp


text \<open>
  Claim C8, at the file \<^verbatim>\<open>A$\<close>. The first call of \<^verbatim>\<open>get_symbol\<close> returns the name
  \<^verbatim>\<open>A\<close> and leaves the scanner on the dollar sign, which \<^verbatim>\<open>_get_name\<close> has read
  without the validity check of \<^verbatim>\<open>_next_valid_char\<close>. The second call does not exit: it
  returns a symbol whose type is \<^verbatim>\<open>None\<close>, none of the eleven, and the scanner has not
  moved. When a space precedes the dollar sign (\<^verbatim>\<open>A $\<close>), the check runs and the second
  call exits.
\<close>

theorem invalid_character_not_rejected:
  "(case get_symbol (Scanner_init Names_init (py ''A$'')) of
      SysExit sc \<Rightarrow> False
    | Raise e sc \<Rightarrow> False
    | Return (y1, sc1) \<Rightarrow>
        sym_type y1 = Some NAME \<and> current_char sc1 = py ''$'' \<and> obj_file sc1 = [] \<and>
        (case get_symbol sc1 of
           SysExit sc \<Rightarrow> False
         | Raise e sc \<Rightarrow> False
         | Return (y2, sc2) \<Rightarrow> sym_type y2 = None \<and> sym_id y2 = None \<and> sc2 = sc1)) \<and>
   (case get_symbol (Scanner_init Names_init (py ''A $'')) of
      SysExit sc \<Rightarrow> False
    | Raise e sc \<Rightarrow> False
    | Return (y1, sc1) \<Rightarrow>
        (case get_symbol sc1 of
           SysExit sc \<Rightarrow> current_char sc = py ''$''
         | Raise e sc \<Rightarrow> False
         | Return (y2, sc2) \<Rightarrow> False))"
  by code_simp

subsection \<open>Scanning a file of valid characters\<close>


















lemma valid_char_alnum:
  "valid_char c \<Longrightarrow> char_isalnum c \<Longrightarrow> char_isalpha c \<or> char_isdigit c"
  by (auto simp: valid_char_def valid_punc_def char_isdigit_def char_isdecimal_def
      char_isalnum_def char_isalpha_def char_isspace_def latin1_class_def Let_def
      split: uclass.splits)









lemma scanner_ok_sc_names [simp]: "scanner_ok (sc\<lparr> sc_names := nms \<rparr>) = scanner_ok sc"
  and remaining_sc_names [simp]: "remaining (sc\<lparr> sc_names := nms \<rparr>) = remaining sc"
  by (simp_all add: scanner_ok_def chars_def remaining_def text_left_def)




section \<open>Properties of the parser\<close>

subsection \<open>The parser's state agrees with what it did\<close>

lemma final_then_do:
  "final (then_do m f s) = (case m s of Done a s1 \<Rightarrow> final (f a s1) | Stop r s1 \<Rightarrow> s1)"
  by (simp add: then_do_def split: outcome.splits)

lemma then_do_final:
  assumes "I (final (m s))"
    and "\<And>a s1. m s = Done a s1 \<Longrightarrow> I s1 \<Longrightarrow> I (final (f a s1))"
  shows "I (final (then_do m f s))"
  using assms by (cases "m s") (auto simp: then_do_def)

lemma then_do_parsing:
  assumes "parsing (final (m s))"
    and "\<And>a s1. m s = Done a s1 \<Longrightarrow> parsing s1 \<Longrightarrow> parsing (final (f a s1))"
  shows "parsing (final (then_do m f s))"
  using assms by (rule then_do_final)

lemma count_errors_append [simp]:
  "count_errors (tr @ [ev]) = count_errors tr + (if is_error ev then 1 else 0)"
  by (simp add: count_errors_def)

lemma count_errors_Nil [simp]: "count_errors [] = 0"
  by (simp add: count_errors_def)

lemma no_errors_iff: "count_errors tr = 0 \<longleftrightarrow> list_all (\<lambda>x. \<not> is_error x) tr"
  by (induction tr) (auto simp: count_errors_def)

lemma no_semantic_after_error_append:
  "no_semantic_after_error (tr @ [ev]) =
     (no_semantic_after_error tr \<and> (is_semantic ev \<longrightarrow> count_errors tr = 0))"
  by (induction tr) (auto simp: no_errors_iff list_all_iff count_errors_def)

lemma parsing_register_error: "parsing p \<Longrightarrow> parsing (register_error err p)"
  by (simp add: parsing_def register_error_def Let_def no_semantic_after_error_append)

lemma parsing_scanner [simp]: "parsing (p\<lparr> scanner := sc \<rparr>) = parsing p"
  and parsing_symbol [simp]: "parsing (p\<lparr> symbol := y \<rparr>) = parsing p"
  and parsing_env [simp]: "parsing (p\<lparr> env := e \<rparr>) = parsing p"
  by (simp_all add: parsing_def)

lemma parsing_set_world [simp]: "parsing (set_world w p) = parsing p"
  by (simp add: set_world_def)

lemma trace_set_world [simp]: "trace (set_world w p) = trace p"
  and error_count_set_world [simp]: "error_count (set_world w p) = error_count p"
  by (simp_all add: set_world_def)

lemma parsing_semantic:
  "parsing p \<Longrightarrow> error_count p = 0 \<Longrightarrow> \<not> is_check ev \<Longrightarrow> \<not> is_error ev \<Longrightarrow>
   parsing ((set_world w p)\<lparr> trace := trace p @ [ev] \<rparr>)"
  by (simp add: parsing_def no_semantic_after_error_append set_world_def)

lemma get_next_symbol_parsing: "parsing p \<Longrightarrow> parsing (final (get_next_symbol p))"
  by (auto simp: get_next_symbol_def parsing_register_error split: scan.splits prod.splits)

lemma skip_to_symbol_parsing: "parsing p \<Longrightarrow> parsing (final (skip_to_symbol n st p))"
proof (induction n arbitrary: p)
  case 0
  then show ?case by (subst skip_to_symbol.simps) simp
next
  case (Suc n)
  show ?case
  proof (cases "get_next_symbol p")
    case (Done u p1)
    with get_next_symbol_parsing[OF Suc.prems] have "parsing p1" by simp
    from Suc.IH[OF this] Done Suc.prems show ?thesis
      by (subst skip_to_symbol.simps) simp
  next
    case (Stop r p1)
    with get_next_symbol_parsing[OF Suc.prems] have "parsing p1" by simp
    with Stop Suc.prems show ?thesis by (subst skip_to_symbol.simps) simp
  qed
qed

lemma handle_error_parsing: "parsing p \<Longrightarrow> parsing (final (handle_error n err st p))"
  by (auto simp: handle_error_def Let_def parsing_register_error skip_to_symbol_parsing
      split: option.splits)

lemma expect_keyword_parsing: "parsing p \<Longrightarrow> parsing (final (expect_keyword n ids st p))"
  by (auto simp: expect_keyword_def intro!: then_do_parsing get_next_symbol_parsing handle_error_parsing)

lemma expect_symbol_parsing: "parsing p \<Longrightarrow> parsing (final (expect_symbol n t st p))"
  by (auto simp: expect_symbol_def intro!: then_do_parsing get_next_symbol_parsing handle_error_parsing)

lemma monitor_output_parsing: "parsing p \<Longrightarrow> parsing (final (monitor_output n cb a b p))"
  by (auto simp: monitor_output_def Let_def parsing_semantic split: prod.splits
      intro!: then_do_parsing handle_error_parsing)

lemma make_connection_parsing: "parsing p \<Longrightarrow> parsing (final (make_connection n cb oc ic p))"
  by (auto simp: make_connection_def Let_def parsing_semantic split: prod.splits
      intro!: then_do_parsing handle_error_parsing)

lemma initialise_device_parsing:
  "parsing p \<Longrightarrow> parsing (final (initialise_device n cb t d q p))"
  by (auto simp: initialise_device_def Let_def parsing_semantic split: prod.splits option.splits
      intro!: then_do_parsing handle_error_parsing)

lemma parsing_Done: "parsing p \<Longrightarrow> parsing (final (Done a p))"
  and parsing_Stop: "parsing p \<Longrightarrow> parsing (final (Stop r p))"
  by simp_all

lemma if_parsing:
  "(c \<Longrightarrow> parsing (final a)) \<Longrightarrow> (\<not> c \<Longrightarrow> parsing (final b)) \<Longrightarrow>
   parsing (final (if c then a else b))"
  by simp

lemma case_option_parsing:
  "(x = None \<Longrightarrow> parsing (final a)) \<Longrightarrow> (\<And>y. x = Some y \<Longrightarrow> parsing (final (f y))) \<Longrightarrow>
   parsing (final (case x of None \<Rightarrow> a | Some y \<Rightarrow> f y))"
  by (cases x) simp_all

lemma if_app_parsing:
  "(c \<Longrightarrow> parsing (final (a s))) \<Longrightarrow> (\<not> c \<Longrightarrow> parsing (final (b s))) \<Longrightarrow>
   parsing (final ((if c then a else b) s))"
  by simp

lemma case_option_app_parsing:
  "(x = None \<Longrightarrow> parsing (final (a s))) \<Longrightarrow> (\<And>y. x = Some y \<Longrightarrow> parsing (final (f y s))) \<Longrightarrow>
   parsing (final ((case x of None \<Rightarrow> a | Some y \<Rightarrow> f y) s))"
  by (cases x) simp_all

lemma case_outcome_parsing:
  "parsing (final r) \<Longrightarrow> (\<And>a s1. r = Done a s1 \<Longrightarrow> parsing s1 \<Longrightarrow> parsing (final (f a s1))) \<Longrightarrow>
   parsing (final (case r of Done a s1 \<Rightarrow> f a s1 | Stop x s1 \<Rightarrow> Stop x s1))"
  by (cases r) simp_all

lemmas parsing_steps =
  if_parsing case_option_parsing if_app_parsing case_option_app_parsing
  case_outcome_parsing then_do_parsing
  parsing_Done parsing_Stop
  get_next_symbol_parsing handle_error_parsing skip_to_symbol_parsing
  expect_keyword_parsing expect_symbol_parsing monitor_output_parsing
  make_connection_parsing initialise_device_parsing

lemma rule_device_identifier_parsing:
  "parsing p \<Longrightarrow> parsing (final (rule_device_identifier n p))"
  unfolding rule_device_identifier_def Let_def
  by (rule parsing_steps | assumption)+

lemma rule_output_identifier_parsing:
  "parsing p \<Longrightarrow> parsing (final (rule_output_identifier n cb p))"
  unfolding rule_output_identifier_def Let_def
  by (rule parsing_steps rule_device_identifier_parsing | assumption)+

lemma rule_input_identifier_parsing:
  "parsing p \<Longrightarrow> parsing (final (rule_input_identifier n cb p))"
  unfolding rule_input_identifier_def Let_def
  by (rule parsing_steps rule_device_identifier_parsing | assumption)+

lemma rule_device_name_init_parsing:
  "parsing p \<Longrightarrow> parsing (final (rule_device_name_init n cb t p))"
  unfolding rule_device_name_init_def Let_def
  by (rule parsing_steps rule_device_identifier_parsing | assumption)+

lemma one_or_more_loop_parsing:
  assumes rf: "\<And>q. parsing q \<Longrightarrow> parsing (final (rule_func q))"
  shows "parsing p \<Longrightarrow> parsing (final (one_or_more_loop n rule_func sep stop returns p))"
proof (induction n arbitrary: p returns)
  case 0
  then show ?case
    by (subst one_or_more_loop.simps, simp only: nat.case)
      ((rule parsing_steps | assumption)+)
next
  case (Suc n)
  from Suc.prems show ?case
    by (subst one_or_more_loop.simps, simp only: nat.case)
      ((rule parsing_steps rf Suc.IH | assumption)+)
qed

lemma rule_one_or_more_parsing:
  assumes rf: "\<And>q. parsing q \<Longrightarrow> parsing (final (rule_func q))"
  shows "parsing p \<Longrightarrow> parsing (final (rule_one_or_more n rule_func sep stop p))"
  unfolding rule_one_or_more_def
  by (rule parsing_steps rf one_or_more_loop_parsing | assumption)+

lemma rule_device_instantiation_parsing:
  "parsing p \<Longrightarrow> parsing (final (rule_device_instantiation n cb p))"
  unfolding rule_device_instantiation_def Let_def
  by (rule parsing_steps rule_one_or_more_parsing rule_device_name_init_parsing | assumption)+

lemma rule_connection_parsing:
  "parsing p \<Longrightarrow> parsing (final (rule_connection n cb p))"
  unfolding rule_connection_def
  by (rule parsing_steps rule_output_identifier_parsing rule_input_identifier_parsing | assumption)+

lemma monitor_outputs_parsing:
  "parsing p \<Longrightarrow> parsing (final (monitor_outputs n cb outputs p))"
proof (induction n cb outputs p rule: monitor_outputs.induct)
  case (1 n cb p)
  then show ?case by simp
next
  case (2 n cb outputs p)
  then show ?case by simp
next
  case (3 n cb output_id output_port outputs p)
  from "3.prems" show ?case
    by (simp only: monitor_outputs.simps) ((rule parsing_steps "3.IH" | assumption)+)
qed

lemma rule_monitor_parsing:
  "parsing p \<Longrightarrow> parsing (final (rule_monitor n cb p))"
  unfolding rule_monitor_def
  by (rule parsing_steps rule_one_or_more_parsing rule_output_identifier_parsing
      monitor_outputs_parsing | assumption)+

lemma device_section_parsing:
  "parsing p \<Longrightarrow> parsing (final (device_section n cb p))"
proof (induction n arbitrary: p)
  case 0
  then show ?case
    by (subst device_section.simps, simp only: nat.case)
      ((rule parsing_steps | assumption)+)
next
  case (Suc n)
  from Suc.prems show ?case
    by (subst device_section.simps, simp only: nat.case)
      ((rule parsing_steps rule_device_instantiation_parsing Suc.IH | assumption)+)
qed

lemma connection_section_parsing:
  "parsing p \<Longrightarrow> parsing (final (connection_section n cb p))"
proof (induction n arbitrary: p)
  case 0
  then show ?case
    by (subst connection_section.simps, simp only: nat.case)
      ((rule parsing_steps rule_monitor_parsing | assumption)+)
next
  case (Suc n)
  from Suc.prems show ?case
    by (subst connection_section.simps, simp only: nat.case)
      ((rule parsing_steps rule_monitor_parsing rule_connection_parsing Suc.IH | assumption)+)
qed

subsection \<open>How the parse ends\<close>

lemma finishing_then_do:
  assumes "parsing (final (m s))"
    and "\<And>a s1. m s = Done a s1 \<Longrightarrow> parsing s1 \<Longrightarrow> finishing n cb (f a s1)"
  shows "finishing n cb (then_do m f s)"
proof (cases "m s")
  case (Done a s1)
  with assms show ?thesis by (simp add: then_do_def)
next
  case (Stop x s1)
  with assms(1) show ?thesis by (auto simp: then_do_def finishing_def)
qed

lemma finishing_finish: "parsing p \<Longrightarrow> finishing n cb (finish_parsing n cb p)"
  and finishing_Stop: "parsing p \<Longrightarrow> finishing n cb (Stop x p)"
  by (auto simp: finishing_def)

lemma finishing_if:
  "(c \<Longrightarrow> finishing n cb a) \<Longrightarrow> (\<not> c \<Longrightarrow> finishing n cb b) \<Longrightarrow>
   finishing n cb (if c then a else b)"
  by simp

lemma parsing_reset: "parsing (p\<lparr> error_count := 0, symbol := None, trace := [] \<rparr>)"
  by (simp add: parsing_def)

lemma parse_network_finishing: "finishing n cb (parse_network n cb p)"
  unfolding parse_network_def
  by (rule finishing_then_do finishing_finish finishing_Stop finishing_if parsing_reset
      parsing_steps device_section_parsing connection_section_parsing | assumption)+

text \<open>What \<^verbatim>\<open>_finish_parsing\<close> does.\<close>

lemma handle_error_None: "handle_error n err None p = Done () (register_error err p)"
  by (simp add: handle_error_def)

lemma trace_register_error: "trace (register_error err p) = trace p @ [Error err]"
  and error_count_register_error: "error_count (register_error err p) = error_count p + 1"
  and world_register_error: "world (register_error err p) = world p"
  and error_codes_register_error: "error_codes (register_error err p) = error_codes p"
  by (simp_all add: register_error_def Let_def world_def)

lemma finish_parsing_errors:
  "error_count p > 0 \<Longrightarrow> finish_parsing n cb p = Done False p"
  by (simp add: finish_parsing_def then_do_def)

lemma finish_parsing_clean:
  assumes "error_count p = 0"
  shows "\<exists>p'. finish_parsing n cb p = Done (network_check_network cb (world p)) p' \<and>
     world p' = world p \<and>
     trace p' = trace p @ CheckNetwork (network_check_network cb (world p)) #
       (if network_check_network cb (world p) then [] else [Error (NETWORK_INPUTS_UNCONNECTED p)]) \<and>
     error_count p' = (if network_check_network cb (world p) then 0 else 1) \<and>
     error_codes p' = error_codes p"
  using assms
proof -
  let ?ok = "network_check_network cb (world p)"
  let ?p1 = "p\<lparr> trace := trace p @ [CheckNetwork ?ok] \<rparr>"
  have w: "world ?p1 = world p" by (simp add: world_def)
  have c: "NETWORK_INPUTS_UNCONNECTED ?p1 = NETWORK_INPUTS_UNCONNECTED p"
    by (simp add: NETWORK_INPUTS_UNCONNECTED_def)
  show ?thesis
  proof (cases ?ok)
    case True
    with assms w show ?thesis
      by (simp add: finish_parsing_def then_do_def Let_def)
  next
    case False
    with assms w c show ?thesis
      by (simp add: finish_parsing_def then_do_def Let_def handle_error_None trace_register_error
          error_count_register_error world_register_error error_codes_register_error)
  qed
qed

lemma counted_finish:
  assumes "parsing p"
  shows "error_count (final (finish_parsing n cb p)) = count_errors (trace (final (finish_parsing n cb p)))
     \<and> no_semantic_after_error (trace (final (finish_parsing n cb p)))"
proof (cases "error_count p = 0")
  case True
  let ?ok = "network_check_network cb (world p)"
  from finish_parsing_clean[OF True, of n cb] obtain p' where
    f: "finish_parsing n cb p = Done ?ok p'"
    and tr: "trace p' = trace p @ CheckNetwork ?ok #
       (if ?ok then [] else [Error (NETWORK_INPUTS_UNCONNECTED p)])"
    and ec: "error_count p' = (if ?ok then 0 else 1)" by blast
  have a: "no_semantic_after_error (trace p @ [CheckNetwork ?ok])"
    and b: "count_errors (trace p @ [CheckNetwork ?ok]) = 0"
    using assms True by (simp_all add: parsing_def no_semantic_after_error_append)
  show ?thesis
  proof (cases ?ok)
    case True
    with f tr ec a b show ?thesis by simp
  next
    case False
    then have tr': "trace p' = (trace p @ [CheckNetwork ?ok]) @ [Error (NETWORK_INPUTS_UNCONNECTED p)]"
      using tr by simp
    have "no_semantic_after_error (trace p')" "count_errors (trace p') = 1"
      unfolding tr' using a b
      by (simp_all only: no_semantic_after_error_append count_errors_append is_semantic.simps
          is_error.simps) simp_all
    with f ec False show ?thesis by simp
  qed
next
  case False
  with assms show ?thesis by (simp add: finish_parsing_errors parsing_def)
qed

subsection \<open>A parse that never ends\<close>

lemma get_next_symbol_invalid_char:
  assumes "invalid_char_pending (scanner p)" and "cur_type p \<noteq> Some EOF"
  shows "\<exists>y. get_next_symbol p = Done () (p\<lparr> symbol := Some y \<rparr>) \<and> sym_type y = None"
proof -
  let ?y = "\<lparr> sym_type = None, sym_id = None, sym_line_num = line_num (scanner p),
              sym_char_num = char_num (scanner p) \<rparr>"
  have "get_next_symbol p = Done () (p\<lparr> symbol := Some ?y \<rparr>)"
    using assms by (simp add: get_next_symbol_def get_symbol_invalid_char)
  then show ?thesis by (intro exI[of _ ?y]) simp
qed

lemma skip_to_symbol_invalid_char:
  assumes "invalid_char_pending (scanner p)" and "cur_type p = None"
  shows "\<exists>p'. skip_to_symbol n st p = Stop OutOfFuel p'"
  using assms
proof (induction n arbitrary: p)
  case 0
  then show ?case by (subst skip_to_symbol.simps) simp
next
  case (Suc n)
  from Suc.prems obtain y where
    g: "get_next_symbol p = Done () (p\<lparr> symbol := Some y \<rparr>)" and y: "sym_type y = None"
    using get_next_symbol_invalid_char[of p] by auto
  have "\<exists>p'. skip_to_symbol n st (p\<lparr> symbol := Some y \<rparr>) = Stop OutOfFuel p'"
    using Suc.prems y by (intro Suc.IH) (simp_all add: cur_type_def)
  with g Suc.prems show ?case by (subst skip_to_symbol.simps) simp
qed

lemma scanner_register_error [simp]: "scanner (register_error err p) = scanner p"
  and symbol_register_error [simp]: "symbol (register_error err p) = symbol p"
  by (simp_all add: register_error_def Let_def)

lemma cur_type_register_error [simp]: "cur_type (register_error err p) = cur_type p"
  by (simp add: cur_type_def)

lemma device_section_invalid_char:
  assumes "invalid_char_pending (scanner p)" and "cur_type p = None"
  shows "\<exists>p'. device_section n cb p = Stop OutOfFuel p'"
proof (cases n)
  case 0
  with assms show ?thesis
    by (subst device_section.simps) (simp add: symbol_is_keyword_def)
next
  case (Suc k)
  obtain p' where "skip_to_symbol k SEMICOLON (register_error (EXPECTED_DEVICE_INSTANTIATION p) p)
      = Stop OutOfFuel p'"
    using skip_to_symbol_invalid_char[of "register_error (EXPECTED_DEVICE_INSTANTIATION p) p" k SEMICOLON]
      assms by auto
  with assms Suc show ?thesis
    by (subst device_section.simps)
      (simp add: symbol_is_keyword_def handle_error_def then_do_def)
qed

lemma expect_keyword_None: "expect_keyword n ids None = expect_keyword 0 ids None"
  and expect_symbol_None: "expect_symbol n t None = expect_symbol 0 t None"
  by (auto simp: expect_keyword_def expect_symbol_def handle_error_def then_do_def fun_eq_iff)


text \<open>
  Claim C10, at the file \<^verbatim>\<open>DEVICES$\<close>. After the keyword the scanner rests on the
  dollar sign and returns symbols of type \<^verbatim>\<open>None\<close> without moving, so the loop of
  \<^verbatim>\<open>_skip_to_symbol\<close>, entered from the device section, meets neither a semicolon nor
  the end of the file: whatever number of iterations is granted, the parse uses them
  up.
\<close>

theorem parse_never_returns:
  "\<forall>n. \<exists>p'. logsim n (simple_collab True) Names_init [] (py ''DEVICES$'') = Stop OutOfFuel p'"
proof
  fix n
  let ?cb = "simple_collab True"
  let ?P0 = "(Parser_init (Scanner_init Names_init (py ''DEVICES$'')) ([]::nat list))
      \<lparr> error_count := 0, symbol := None, trace := [] \<rparr>"
  let ?P1 = "final (get_next_symbol ?P0)"
  let ?P2 = "final (expect_keyword 0 [DEVICES_ID (scanner ?P1)] None ?P1)"
  let ?P3 = "final (expect_symbol 0 COLON None ?P2)"
  have a1: "get_next_symbol ?P0 = Done () ?P1" by code_simp
  have a2: "expect_keyword 0 [DEVICES_ID (scanner ?P1)] None ?P1 = Done True ?P2" by code_simp
  have a3: "expect_symbol 0 COLON None ?P2 = Done False ?P3" by code_simp
  have a4: "invalid_char_pending (scanner ?P3)" by code_simp
  have a5: "cur_type ?P3 = None" by code_simp
  obtain p' where d: "device_section n ?cb ?P3 = Stop OutOfFuel p'"
    using device_section_invalid_char[OF a4 a5] by blast
  have "logsim n ?cb Names_init [] (py ''DEVICES$'') = Stop OutOfFuel p'"
    unfolding logsim_def parse_network_def
    apply (subst then_do_def, subst a1, simp only: outcome.case)
    apply (subst then_do_def, subst expect_keyword_None, subst a2, simp only: outcome.case)
    apply (subst then_do_def, subst expect_symbol_None, subst a3, simp only: outcome.case)
    apply (subst then_do_def, subst d, simp only: outcome.case)
    done
  then show "\<exists>p'. logsim n ?cb Names_init [] (py ''DEVICES$'') = Stop OutOfFuel p'" ..
qed

subsection \<open>The value returned\<close>


lemma parse_network_counted:
  "error_count (final (parse_network n cb p)) = count_errors (trace (final (parse_network n cb p)))"
  "no_semantic_after_error (trace (final (parse_network n cb p)))"
proof -
  from parse_network_finishing[of n cb p] obtain p1 where
    p1: "parsing p1" and r: "parse_network n cb p = finish_parsing n cb p1 \<or>
      (\<exists>x. parse_network n cb p = Stop x p1)"
    by (auto simp: finishing_def)
  from r show "error_count (final (parse_network n cb p)) = count_errors (trace (final (parse_network n cb p)))"
    using counted_finish[OF p1, of n cb] p1 by (auto simp: parsing_def)
  from r show "no_semantic_after_error (trace (final (parse_network n cb p)))"
    using counted_finish[OF p1, of n cb] p1 by (auto simp: parsing_def)
qed

lemma parse_network_Done:
  assumes "parse_network n cb p = Done b p'"
  shows "\<exists>p1. parsing p1 \<and> finish_parsing n cb p1 = Done b p'"
  using parse_network_finishing[of n cb p] assms by (auto simp: finishing_def)


subsection \<open>The parse of a file of valid characters returns\<close>









lemma parser_ok_register_error [simp]: "parser_ok K (register_error err p) = parser_ok K p"
  and to_read_register_error [simp]: "to_read (register_error err p) = to_read p"
  by (simp_all add: parser_ok_def to_read_def)












lemma parser_ok_semantic [simp]:
  "parser_ok K ((set_world w p)\<lparr> trace := tr \<rparr>) = parser_ok K p"
  and to_read_semantic [simp]: "to_read ((set_world w p)\<lparr> trace := tr \<rparr>) = to_read p"
  by (simp_all add: parser_ok_def to_read_def set_world_def cur_type_def scanner_ok_def chars_def
      remaining_def text_left_def)

























subsection \<open>The result of the parse\<close>




subsection \<open>No semantic action after an error\<close>

text \<open>
  Claim C2. In a state with a positive error count, \<^verbatim>\<open>_initialise_device\<close>,
  \<^verbatim>\<open>_make_connection\<close> and \<^verbatim>\<open>_monitor_output\<close> return \<^verbatim>\<open>False\<close> and change nothing:
  \<^verbatim>\<open>make_device\<close>, \<^verbatim>\<open>make_connection\<close> and \<^verbatim>\<open>make_monitor\<close> are not called. Over a
  whole parse, however it ends and at whatever point a run is cut, no call of the three
  comes after an error in the record of what the parser did, and the error count is the
  number of errors in that record: parsing goes on counting errors.
\<close>

theorem semantic_actions_suppressed:
  "(0 < error_count p \<longrightarrow>
      initialise_device n cb t d q p = Done (Some False) p \<and>
      make_connection n cb oc ic p = Done (Some False) p \<and>
      monitor_output n cb a b p = Done (Some False) p) \<and>
   no_semantic_after_error (trace (final (parse_network n cb p0))) \<and>
   error_count (final (parse_network n cb p0)) = count_errors (trace (final (parse_network n cb p0)))"
  using parse_network_counted[of n cb p0]
  by (simp add: initialise_device_def make_connection_def monitor_output_def)

theorem semantic_actions_suppressed_witness:
  "trace (final (logsim 20 (simple_collab True) Names_init []
      (py ''DEVICES: SWITCH A(1) SWITCH B(0); CONNECTIONS: A > B.I1; MONITOR A'')))
     = [MakeDevice 18 6 (Some 1), Error 0, Error 3] \<and>
   no_semantic_after_error (trace (final (logsim 20 (simple_collab True) Names_init []
      (py ''DEVICES: SWITCH A(1) SWITCH B(0); CONNECTIONS: A > B.I1; MONITOR A'')))) \<and>
   0 < error_count (final (logsim 20 (simple_collab True) Names_init []
      (py ''DEVICES: SWITCH A(1) SWITCH B(0); CONNECTIONS: A > B.I1; MONITOR A''))) \<and>
   make_connection 20 (simple_collab True) (18, None) (19, Some 20)
     (final (logsim 20 (simple_collab True) Names_init []
      (py ''DEVICES: SWITCH A(1) SWITCH B(0); CONNECTIONS: A > B.I1; MONITOR A'')))
     = Done (Some False) (final (logsim 20 (simple_collab True) Names_init []
      (py ''DEVICES: SWITCH A(1) SWITCH B(0); CONNECTIONS: A > B.I1; MONITOR A'')))"
proof -
  let ?p0 = "Parser_init (Scanner_init Names_init
      (py ''DEVICES: SWITCH A(1) SWITCH B(0); CONNECTIONS: A > B.I1; MONITOR A'')) ([]::nat list)"
  let ?r = "parse_network 20 (simple_collab True) ?p0"
  have t: "trace (final ?r) = [MakeDevice 18 6 (Some 1), Error 0, Error 3]" by code_simp
  have e: "0 < error_count (final ?r)" by code_simp
  note s = semantic_actions_suppressed[of "final ?r" 20 "simple_collab True" _ _ _ "(18, None)"
      "(19, Some 20)" _ _ ?p0]
  from s have a: "no_semantic_after_error (trace (final ?r))" by blast
  from s e have m: "make_connection 20 (simple_collab True) (18, None) (19, Some 20) (final ?r)
      = Done (Some False) (final ?r)" by blast
  show ?thesis unfolding logsim_def using t a e m by (intro conjI)
qed

subsection \<open>The final connectivity check\<close>

text \<open>
  Claim C3. \<^verbatim>\<open>_finish_parsing\<close> calls \<^verbatim>\<open>check_network\<close> when the error count is zero,
  and then returns its answer: when the answer is \<^verbatim>\<open>False\<close> exactly one error,
  \<^verbatim>\<open>NETWORK_INPUTS_UNCONNECTED\<close>, is handled and the count is one. When the error count
  is positive it returns \<^verbatim>\<open>False\<close> and does nothing else. Every value that
  \<^verbatim>\<open>parse_network\<close> returns is the value of \<^verbatim>\<open>_finish_parsing\<close> in a state whose
  count is the number of errors handled and in which the network has not been checked
  before.
\<close>

theorem final_check:
  "(error_count p = 0 \<longrightarrow>
      (\<exists>p'. finish_parsing n cb p = Done (network_check_network cb (world p)) p' \<and>
            trace p' = trace p @ CheckNetwork (network_check_network cb (world p)) #
              (if network_check_network cb (world p) then []
               else [Error (NETWORK_INPUTS_UNCONNECTED p)]) \<and>
            error_count p' = (if network_check_network cb (world p) then 0 else 1))) \<and>
   (0 < error_count p \<longrightarrow> finish_parsing n cb p = Done False p) \<and>
   (parse_network n cb p0 = Done b p2 \<longrightarrow>
      (\<exists>p1. finish_parsing n cb p1 = Done b p2 \<and> error_count p1 = count_errors (trace p1) \<and>
            list_all (\<lambda>x. \<not> is_check x) (trace p1)))"
proof (intro conjI impI)
  assume "error_count p = 0"
  from finish_parsing_clean[OF this, of n cb]
  show "\<exists>p'. finish_parsing n cb p = Done (network_check_network cb (world p)) p' \<and>
            trace p' = trace p @ CheckNetwork (network_check_network cb (world p)) #
              (if network_check_network cb (world p) then []
               else [Error (NETWORK_INPUTS_UNCONNECTED p)]) \<and>
            error_count p' = (if network_check_network cb (world p) then 0 else 1)"
    by blast
next
  assume "0 < error_count p"
  then show "finish_parsing n cb p = Done False p" by (rule finish_parsing_errors)
next
  assume "parse_network n cb p0 = Done b p2"
  from parse_network_Done[OF this]
  show "\<exists>p1. finish_parsing n cb p1 = Done b p2 \<and> error_count p1 = count_errors (trace p1) \<and>
            list_all (\<lambda>x. \<not> is_check x) (trace p1)"
    by (auto simp: parsing_def)
qed

theorem final_check_witness:
  "logsim 20 (simple_collab False) Names_init [] (py ''DEVICES: AND G(2); CONNECTIONS: MONITOR G;'')
     = Done False (final (logsim 20 (simple_collab False) Names_init []
         (py ''DEVICES: AND G(2); CONNECTIONS: MONITOR G;''))) \<and>
   error_count (final (logsim 20 (simple_collab False) Names_init []
         (py ''DEVICES: AND G(2); CONNECTIONS: MONITOR G;''))) = 1 \<and>
   trace (final (logsim 20 (simple_collab False) Names_init []
         (py ''DEVICES: AND G(2); CONNECTIONS: MONITOR G;'')))
     = [MakeDevice 18 0 (Some 2), MakeMonitor 18 None, CheckNetwork False, Error 7] \<and>
   finish_parsing 20 (simple_collab False)
     (final (logsim 20 (simple_collab False) Names_init []
         (py ''DEVICES: AND G(2); CONNECTIONS: MONITOR G;'')))
     = Done False (final (logsim 20 (simple_collab False) Names_init []
         (py ''DEVICES: AND G(2); CONNECTIONS: MONITOR G;'')))"
proof -
  let ?p0 = "Parser_init (Scanner_init Names_init
      (py ''DEVICES: AND G(2); CONNECTIONS: MONITOR G;'')) ([]::nat list)"
  let ?r = "parse_network 20 (simple_collab False) ?p0"
  have d: "?r = Done False (final ?r)" by code_simp
  have e: "error_count (final ?r) = 1" by code_simp
  have t: "trace (final ?r) = [MakeDevice 18 0 (Some 2), MakeMonitor 18 None, CheckNetwork False, Error 7]"
    by code_simp
  from e have e0: "0 < error_count (final ?r)" by simp
  note f = final_check[of "final ?r" 20 "simple_collab False", THEN conjunct2, THEN conjunct1,
      THEN mp, OF e0]
  show ?thesis unfolding logsim_def using d e t f by (intro conjI)
qed

end
